theory Spec2Isabelle
  imports Complex_Main "HOL-Library.AList" "HOL-Library.Multiset" "HOL-Library.Product_Lexorder"
begin

section \<open>Data model (cloudsim/models.py)\<close>

datatype TransferStatus = PENDING | IN_PROGRESS | COMPLETED | FAILED

text \<open>
  \<open>FileChunk\<close>: the field \<open>size\<close> of the source is \<open>chunk_size\<close> here and
  \<open>status\<close> is \<open>chunk_status\<close> (both names are taken).  \<open>stored_node\<close> is
  \<open>str | None\<close>.
\<close>

record FileChunk =
  chunk_id :: int
  chunk_size :: int
  checksum :: string
  chunk_status :: TransferStatus
  stored_node :: "string option"

text \<open>Timestamps (\<open>time.time()\<close>) are idealised as real numbers of seconds.\<close>

record FileTransfer =
  file_id :: string
  file_name :: string
  total_size :: int
  chunks :: "FileChunk list"
  status :: TransferStatus
  created_at :: real
  completed_at :: "real option"

record NodeCapacity =
  cpu :: int
  memory_gb :: int
  storage_bytes :: int
  bandwidth_bps :: int

text \<open>
  \<open>NodeInfo\<close>.  The three default factories of the dataclass (\<open>registered_at\<close>,
  \<open>last_seen\<close>, \<open>active = True\<close>) are filled in by \<open>new_NodeInfo\<close> below.
\<close>

record NodeInfo =
  node_id :: string
  host :: string
  tcp_port :: int
  udp_port :: int
  capacity :: NodeCapacity
  registered_at :: real
  last_seen :: real
  active :: bool

definition new_NodeInfo :: "real \<Rightarrow> string \<Rightarrow> string \<Rightarrow> int \<Rightarrow> int \<Rightarrow> NodeCapacity \<Rightarrow> NodeInfo" where
  "new_NodeInfo now nid h tp up cap =
     \<lparr>node_id = nid, host = h, tcp_port = tp, udp_port = up, capacity = cap,
      registered_at = now, last_seen = now, active = True\<rparr>"

record NetworkStats =
  total_nodes :: int
  active_nodes :: int
  stat_connections :: int
  stat_data_transferred :: int
  total_storage_capacity :: int
  total_bandwidth_capacity :: int

section \<open>Chunking (cloudsim/orchestrator.py)\<close>

definition calc_chunk_size :: "int \<Rightarrow> int" where
  "calc_chunk_size file_size =
     (if file_size < 10 * 1024 * 1024 then 512 * 1024
      else if file_size < 100 * 1024 * 1024 then 2 * 1024 * 1024
      else 10 * 1024 * 1024)"

text \<open>
  \<open>_gen_chunks\<close>.  The parameter \<open>digest\<close> stands for the library call
  \<open>hashlib.md5(f"{file_id}-{i}".encode("utf-8")).hexdigest()\<close>.  \<open>range(n)\<close> is the
  integer interval \<open>[0..n - 1]\<close>, empty when \<open>n \<le> 0\<close>; \<open>//\<close> is floor division, as
  \<open>div\<close> on \<open>int\<close>.
\<close>

definition gen_chunks :: "(string \<Rightarrow> int \<Rightarrow> string) \<Rightarrow> string \<Rightarrow> int \<Rightarrow> FileChunk list" where
  "gen_chunks digest fid file_size =
     (let sz = calc_chunk_size file_size;
          n = (file_size + sz - 1) div sz
      in map (\<lambda>i. \<lparr>chunk_id = i,
                     chunk_size = min sz (file_size - i * sz),
                     checksum = digest fid i,
                     chunk_status = PENDING,
                     stored_node = None\<rparr>) [0..n - 1])"

section \<open>Placement and reservation ledger (cloudsim/orchestrator.py)\<close>

text \<open>
  One entry of the \<open>LIST_NODES\<close> reply, as the controller builds it: the dictionary
  with the keys \<open>node_id\<close>, \<open>host\<close>, \<open>tcp_port\<close>, \<open>udp_port\<close>, \<open>active\<close> and
  \<open>capacity\<close>.  The ledger \<open>_reserved\<close> is a dictionary from node ids to bytes;
  \<open>reserved_get r nid\<close> is \<open>self._reserved.get(nid, 0)\<close>.
\<close>

record node_entry =
  ne_node_id :: string
  ne_host :: string
  ne_tcp_port :: int
  ne_udp_port :: int
  ne_active :: bool
  ne_capacity :: NodeCapacity

type_synonym ledger = "string \<rightharpoonup> int"

definition reserved_get :: "ledger \<Rightarrow> string \<Rightarrow> int" where
  "reserved_get r nid = (case r nid of None \<Rightarrow> 0 | Some v \<Rightarrow> v)"

definition estimated_available :: "ledger \<Rightarrow> node_entry \<Rightarrow> int" where
  "estimated_available r n =
     (let total = storage_bytes (ne_capacity n);
          reserved = reserved_get r (ne_node_id n);
          free = total - reserved
      in if free > 0 then free else 0)"

text \<open>
  \<open>list.sort(key=..., reverse=True)\<close> is stable: elements with equal keys keep their
  order.  CPython obtains this by reversing the list, sorting it stably in ascending
  order and reversing the result, which is what \<open>py_sort_reverse\<close> does
  (\<open>sort_key\<close> is a stable insertion sort).  \<open>py_prefix xs k\<close> is the slice
  \<open>xs[:k]\<close>, where a negative \<open>k\<close> counts from the end.
\<close>

definition py_sort_reverse :: "('a \<Rightarrow> 'k::linorder) \<Rightarrow> 'a list \<Rightarrow> 'a list" where
  "py_sort_reverse key xs = rev (sort_key key (rev xs))"

definition py_prefix :: "'a list \<Rightarrow> int \<Rightarrow> 'a list" where
  "py_prefix xs k = (if 0 \<le> k then take (nat k) xs else take (nat (int (length xs) + k)) xs)"

definition rank_key :: "ledger \<Rightarrow> node_entry \<Rightarrow> int \<times> int" where
  "rank_key r n = (estimated_available r n, bandwidth_bps (ne_capacity n))"

definition suitable_nodes :: "ledger \<Rightarrow> node_entry list \<Rightarrow> int \<Rightarrow> node_entry list" where
  "suitable_nodes r nodes file_size =
     (let active_nodes = filter ne_active nodes
      in filter (\<lambda>n. estimated_available r n \<ge> file_size) active_nodes)"

definition select_targets :: "ledger \<Rightarrow> node_entry list \<Rightarrow> int \<Rightarrow> int \<Rightarrow> string list" where
  "select_targets r nodes replication file_size =
     (let suitable = py_sort_reverse (rank_key r) (suitable_nodes r nodes file_size)
      in map ne_node_id (py_prefix suitable replication))"

definition reserve :: "string list \<Rightarrow> int \<Rightarrow> ledger \<Rightarrow> ledger" where
  "reserve targets file_size r = fold (\<lambda>nid r. r(nid \<mapsto> reserved_get r nid + file_size)) targets r"

definition release :: "string list \<Rightarrow> int \<Rightarrow> ledger \<Rightarrow> ledger" where
  "release targets sz r = fold (\<lambda>nid r. r(nid \<mapsto> reserved_get r nid - sz)) targets r"

text \<open>
  \<open>initiate_transfer\<close> up to the point where the executor thread is started.  The
  inputs that come from outside are parameters: \<open>nodes\<close> is what \<open>_list_nodes()\<close>
  returned, \<open>suffix\<close> is the text \<open>-<milliseconds>-<random number>\<close> appended to the
  file id, \<open>now\<close> the clock reading.  The result is \<open>None\<close> when no target
  qualifies; otherwise the transfer, the targets handed to \<open>_execute\<close> and the
  ledger after the reservations.
\<close>

definition initiate_transfer ::
  "(string \<Rightarrow> int \<Rightarrow> string) \<Rightarrow> real \<Rightarrow> string \<Rightarrow> node_entry list \<Rightarrow> ledger \<Rightarrow>
   string \<Rightarrow> int \<Rightarrow> int \<Rightarrow> (FileTransfer \<times> string list \<times> ledger) option" where
  "initiate_transfer digest now suffix nodes r fname file_size replication =
     (let fid = map (\<lambda>ch. if ch = CHR '' '' then CHR ''_'' else ch) fname @ suffix;
          targets = select_targets r nodes replication file_size
      in if targets = [] then None
         else let cs = gen_chunks digest fid file_size;
                  transfer = \<lparr>file_id = fid, file_name = fname, total_size = file_size,
                              chunks = cs, status = PENDING, created_at = now,
                              completed_at = None\<rparr>
              in Some (transfer, targets, reserve targets file_size r))"

section \<open>Transfer executor (cloudsim/orchestrator.py)\<close>

text \<open>
  \<open>_execute\<close> starts one thread per target, each running \<open>_simulate_to_node\<close>, and
  joins them with a timeout.  The threads share the chunk objects.  What the executor
  sees when the joins have returned is fixed by the order in which the threads
  finished chunks until then: the schedule, a list of thread indices, the \<open>i\<close>-th
  thread serving \<open>targets ! i\<close>.  An entry \<open>i\<close> means that thread \<open>i\<close> ends the
  sleep for its next chunk and writes \<open>c.status = COMPLETED\<close> and
  \<open>c.stored_node = node_id\<close>.  A thread that is too slow for its join, or that has
  stopped on an error of its own (an error in a thread does not reach the executor),
  is a thread with no further entries.  \<open>started\<close> is the number of threads that
  were started; \<open>pos ! i\<close> counts the chunks thread \<open>i\<close> has delivered.
\<close>

definition deliver :: "string list \<Rightarrow> nat \<Rightarrow> nat \<Rightarrow> FileChunk list \<times> nat list \<Rightarrow> FileChunk list \<times> nat list" where
  "deliver targets started i st =
     (case st of (cs, pos) \<Rightarrow>
        if i < started \<and> i < length targets \<and> pos ! i < length cs
        then (cs[pos ! i := (cs ! (pos ! i))\<lparr>chunk_status := COMPLETED,
                                             stored_node := Some (targets ! i)\<rparr>],
              pos[i := Suc (pos ! i)])
        else (cs, pos))"

definition simulate :: "string list \<Rightarrow> nat \<Rightarrow> nat list \<Rightarrow> FileChunk list \<Rightarrow> FileChunk list \<times> nat list" where
  "simulate targets started schedule cs =
     fold (deliver targets started) schedule (cs, replicate (length targets) 0)"

definition is_complete :: "FileTransfer \<Rightarrow> bool" where
  "is_complete t = list_all (\<lambda>c. chunk_status c = COMPLETED) (chunks t)"

definition mark_completed :: "real \<Rightarrow> FileTransfer \<Rightarrow> FileTransfer" where
  "mark_completed now t = t\<lparr>status := COMPLETED, completed_at := Some now\<rparr>"

text \<open>
  The result of \<open>_execute\<close>: whether the body of the \<open>try\<close> raised, the transfer, the
  chunks each thread had delivered when the executor looked, and the ledger after the
  \<open>finally\<close> block.  \<open>start_fault = Some k\<close> is the run in which starting thread \<open>k\<close>
  raises (\<open>Thread.start\<close> raises \<open>RuntimeError\<close> when no thread can be created): the
  threads before it run, the status stays \<open>IN_PROGRESS\<close>, and the \<open>finally\<close> block
  still runs.
\<close>

record exec_result =
  raised :: bool
  transfer :: FileTransfer
  progress :: "nat list"
  ledger_after :: ledger

definition execute ::
  "real \<Rightarrow> nat list \<Rightarrow> nat option \<Rightarrow> FileTransfer \<Rightarrow> string list \<Rightarrow> ledger \<Rightarrow> exec_result" where
  "execute now schedule start_fault t target_nodes r =
     (let t1 = t\<lparr>status := IN_PROGRESS\<rparr>;
          faulty = (case start_fault of None \<Rightarrow> False | Some k \<Rightarrow> k < length target_nodes);
          started = (case start_fault of None \<Rightarrow> length target_nodes
                     | Some k \<Rightarrow> min k (length target_nodes));
          st = simulate target_nodes started schedule (chunks t1);
          t2 = t1\<lparr>chunks := fst st\<rparr>;
          t3 = (if faulty then t2
                else if is_complete t2 then mark_completed now t2
                else t2\<lparr>status := FAILED\<rparr>)
      in \<lparr>raised = faulty, transfer = t3, progress = snd st,
          ledger_after = release target_nodes (total_size t) r\<rparr>)"

section \<open>Wire messages and Python library calls\<close>

text \<open>
  A decoded JSON value.  Numbers are integers (the node agent sends integers; a
  fractional number is outside the model).  A dictionary is an association list read
  with \<open>map_of\<close>.
\<close>

datatype json =
    JNull
  | JBool bool
  | JInt int
  | JStr string
  | JArr "json list"
  | JObj "(string \<times> json) list"

datatype exn =
    KeyError string
  | ValueError string
  | TypeError json
  | AttributeError json
  | UnicodeEncodeError string
  | OSError string

text \<open>
  The lines the controller prints: \<open>Registered <node_id> capacity=<capacity>\<close>,
  \<open>Node <node_id> is now active\<close>, \<open>Refreshed <node_id> via UDP ping\<close> and
  \<open>Node <node_id> marked inactive (timeout)\<close>.
\<close>

datatype log_line =
    LogRegistered string NodeCapacity
  | LogActive string
  | LogRefreshed string
  | LogInactive string

text \<open>
  The library calls whose results the code only passes on are parameters:
  \<open>int_of_str\<close> is \<open>int(s)\<close> on a string (\<open>None\<close> when it raises \<open>ValueError\<close>),
  \<open>repr_of\<close> is \<open>str(v)\<close> on a value that is a number, a list or a dictionary,
  \<open>exn_str\<close> is \<open>str(e)\<close> on an exception, \<open>json_loads\<close> is
  \<open>json.loads(data.decode("utf-8"))\<close> (\<open>None\<close> when either call raises), and
  \<open>print_exn\<close> is the exception \<open>print\<close> raises on a line, if it raises one (a node
  id that standard output cannot encode, or a closed standard output).
\<close>

record pylib =
  int_of_str :: "string \<Rightarrow> int option"
  repr_of :: "json \<Rightarrow> string"
  exn_str :: "exn \<Rightarrow> string"
  json_loads :: "string \<Rightarrow> json option"
  print_exn :: "log_line \<Rightarrow> exn option"

definition py_str :: "pylib \<Rightarrow> json \<Rightarrow> string" where
  "py_str P v =
     (case v of
        JStr s \<Rightarrow> s
      | JNull \<Rightarrow> ''None''
      | JBool b \<Rightarrow> (if b then ''True'' else ''False'')
      | _ \<Rightarrow> repr_of P v)"

definition py_int :: "pylib \<Rightarrow> json \<Rightarrow> exn + int" where
  "py_int P v =
     (case v of
        JInt i \<Rightarrow> Inr i
      | JBool b \<Rightarrow> Inr (if b then 1 else 0)
      | JStr s \<Rightarrow> (case int_of_str P s of None \<Rightarrow> Inl (ValueError s) | Some i \<Rightarrow> Inr i)
      | _ \<Rightarrow> Inl (TypeError v))"

definition dict_get :: "(string \<times> json) list \<Rightarrow> string \<Rightarrow> json \<Rightarrow> json" where
  "dict_get d k dflt = (case map_of d k of None \<Rightarrow> dflt | Some v \<Rightarrow> v)"

text \<open>\<open>cap.get(k, dflt)\<close> on the value of the \<open>capacity\<close> key, which need not be a dictionary.\<close>

definition cap_get :: "json \<Rightarrow> string \<Rightarrow> json \<Rightarrow> exn + json" where
  "cap_get cap k dflt =
     (case cap of JObj d \<Rightarrow> Inr (dict_get d k dflt) | _ \<Rightarrow> Inl (AttributeError cap))"

definition bind_exn :: "exn + 'a \<Rightarrow> ('a \<Rightarrow> exn + 'b) \<Rightarrow> exn + 'b" where
  "bind_exn m f = (case m of Inl e \<Rightarrow> Inl e | Inr x \<Rightarrow> f x)"

definition status_response :: "string \<Rightarrow> json" where
  "status_response s = JObj [(''status'', JStr s)]"

definition error_response :: "string \<Rightarrow> json" where
  "error_response m = JObj [(''status'', JStr ''ERROR''), (''message'', JStr m)]"

section \<open>Controller (cloudsim/controller.py)\<close>

text \<open>
  The dictionaries \<open>_registered\<close> and \<open>_last_hb\<close> keep insertion order, which
  \<open>LIST_NODES\<close> and the sweep follow, so they are association lists:
  \<open>AList.update\<close> overwrites the value of a present key in place and appends an absent
  one, as a dictionary assignment does; \<open>AList.map_entry\<close> changes a field of a stored
  object.  Every handler takes the clock reading \<open>now\<close>; the successive readings
  inside one handler are taken to be the same.
\<close>

record controller =
  port :: int
  registered :: "(string \<times> NodeInfo) list"
  last_hb :: "(string \<times> real) list"
  total_connections :: int
  total_data_transferred :: int


definition HEARTBEAT_TIMEOUT_SECONDS :: real where
  "HEARTBEAT_TIMEOUT_SECONDS = 10"

text \<open>The body of the \<open>try\<close> of \<open>_handle_register\<close> up to the lock, in the source's order.\<close>

definition parse_register :: "pylib \<Rightarrow> real \<Rightarrow> int \<Rightarrow> (string \<times> json) list \<Rightarrow> exn + NodeInfo" where
  "parse_register P now self_port msg =
     (case map_of msg ''node_id'' of
        None \<Rightarrow> Inl (KeyError ''node_id'')
      | Some nv \<Rightarrow>
          (let nid = py_str P nv;
               h = py_str P (dict_get msg ''host'' (JStr ''127.0.0.1''))
           in bind_exn (py_int P (dict_get msg ''tcp_port'' (JInt self_port))) (\<lambda>tp.
              bind_exn (py_int P (dict_get msg ''port'' (JInt 0))) (\<lambda>up.
              let cap = dict_get msg ''capacity'' (JObj [])
              in bind_exn (bind_exn (cap_get cap ''cpu'' (JInt 4)) (py_int P)) (\<lambda>c.
                 bind_exn (bind_exn (cap_get cap ''memory'' (JInt 8)) (py_int P)) (\<lambda>m.
                 bind_exn (bind_exn (cap_get cap ''storage'' (JInt (100 * 1024 * 1024 * 1024))) (py_int P)) (\<lambda>s.
                 bind_exn (bind_exn (cap_get cap ''bandwidth'' (JInt 1000000000)) (py_int P)) (\<lambda>b.
                 Inr (new_NodeInfo now nid h tp up
                        \<lparr>cpu = c, memory_gb = m, storage_bytes = s, bandwidth_bps = b\<rparr>)))))))))"

text \<open>
  \<open>_handle_register\<close>.  The \<open>print\<close> comes after the two dictionaries were written and
  is still inside the \<open>try\<close>: when it raises, the reply is the error and the node
  stays stored.
\<close>

definition handle_register :: "pylib \<Rightarrow> real \<Rightarrow> (string \<times> json) list \<Rightarrow> controller \<Rightarrow> json \<times> controller" where
  "handle_register P now msg c =
     (case parse_register P now (port c) msg of
        Inl e \<Rightarrow> (error_response (exn_str P e), c)
      | Inr info \<Rightarrow>
          (let c' = c\<lparr>registered := AList.update (node_id info) info (registered c),
                      last_hb := AList.update (node_id info) now (last_hb c)\<rparr>
           in case print_exn P (LogRegistered (node_id info) (capacity info)) of
                None \<Rightarrow> (status_response ''OK'', c')
              | Some e \<Rightarrow> (error_response (exn_str P e), c')))"

definition handle_heartbeat :: "pylib \<Rightarrow> real \<Rightarrow> (string \<times> json) list \<Rightarrow> controller \<Rightarrow> json \<times> controller" where
  "handle_heartbeat P now msg c =
     (let nid = py_str P (dict_get msg ''node_id'' (JStr []))
      in if nid \<in> fst ` set (registered c)
         then (status_response ''ACK'',
               c\<lparr>last_hb := AList.update nid now (last_hb c),
                 registered := AList.map_entry nid (\<lambda>i. i\<lparr>last_seen := now\<rparr>) (registered c)\<rparr>)
         else (error_response ''Node not registered'', c))"

text \<open>
  \<open>_handle_active\<close> has no \<open>try\<close> of its own: when its \<open>print\<close> raises, after the
  record was changed, the exception leaves the handler (\<open>Inl\<close>).
\<close>

definition handle_active ::
  "pylib \<Rightarrow> real \<Rightarrow> (string \<times> json) list \<Rightarrow> controller \<Rightarrow> (exn + json) \<times> controller" where
  "handle_active P now msg c =
     (let nid = py_str P (dict_get msg ''node_id'' (JStr []))
      in if nid \<in> fst ` set (registered c)
         then (let c' = c\<lparr>registered := AList.map_entry nid (\<lambda>i. i\<lparr>active := True, last_seen := now\<rparr>)
                                          (registered c),
                           last_hb := AList.update nid now (last_hb c)\<rparr>
               in case print_exn P (LogActive nid) of
                    None \<Rightarrow> (Inr (status_response ''ACK''), c')
                  | Some e \<Rightarrow> (Inl e, c'))
         else (Inr (error_response ''Node not registered''), c))"

text \<open>
  \<open>_handle_list_nodes\<close>: \<open>list_nodes\<close> is the list of entries it builds, in the order of
  \<open>_registered.values()\<close>, and \<open>entry_json\<close> the dictionary written for each.
\<close>

definition entry_of :: "NodeInfo \<Rightarrow> node_entry" where
  "entry_of n =
     \<lparr>ne_node_id = node_id n, ne_host = host n, ne_tcp_port = tcp_port n,
      ne_udp_port = udp_port n, ne_active = active n, ne_capacity = capacity n\<rparr>"

definition list_nodes :: "controller \<Rightarrow> node_entry list" where
  "list_nodes c = map (\<lambda>kv. entry_of (snd kv)) (registered c)"

definition entry_json :: "node_entry \<Rightarrow> json" where
  "entry_json e =
     JObj [(''node_id'', JStr (ne_node_id e)),
           (''host'', JStr (ne_host e)),
           (''tcp_port'', JInt (ne_tcp_port e)),
           (''udp_port'', JInt (ne_udp_port e)),
           (''active'', JBool (ne_active e)),
           (''capacity'',
              JObj [(''cpu'', JInt (cpu (ne_capacity e))),
                    (''memory'', JInt (memory_gb (ne_capacity e))),
                    (''storage'', JInt (storage_bytes (ne_capacity e))),
                    (''bandwidth'', JInt (bandwidth_bps (ne_capacity e)))])]"

definition handle_list_nodes :: "controller \<Rightarrow> json" where
  "handle_list_nodes c =
     JObj [(''status'', JStr ''OK''), (''nodes'', JArr (map entry_json (list_nodes c)))]"

definition get_stats :: "controller \<Rightarrow> NetworkStats" where
  "get_stats c =
     (let ns = map snd (registered c)
      in \<lparr>total_nodes = int (length ns),
          active_nodes = int (length (filter active ns)),
          stat_connections = total_connections c,
          stat_data_transferred = total_data_transferred c,
          total_storage_capacity = sum_list (map (\<lambda>n. storage_bytes (capacity n)) ns),
          total_bandwidth_capacity = sum_list (map (\<lambda>n. bandwidth_bps (capacity n)) ns)\<rparr>)"

definition handle_stats :: "controller \<Rightarrow> json" where
  "handle_stats c =
     (let s = get_stats c
      in JObj [(''status'', JStr ''OK''),
               (''stats'',
                  JObj [(''total_nodes'', JInt (total_nodes s)),
                        (''active_nodes'', JInt (active_nodes s)),
                        (''total_connections'', JInt (stat_connections s)),
                        (''total_data_transferred'', JInt (stat_data_transferred s)),
                        (''total_storage_capacity'', JInt (total_storage_capacity s)),
                        (''total_bandwidth_capacity'', JInt (total_bandwidth_capacity s))])])"

text \<open>
  \<open>_handle_client\<close>: the reply handed to \<open>sendall\<close>, or \<open>None\<close> when the handler
  returns without sending one (no data, or an exception swallowed by the
  \<open>except Exception: pass\<close>).  A payload that decodes to something other than a
  dictionary raises \<open>AttributeError\<close> at \<open>message.get\<close>.  A missing \<open>action\<close> is
  Python's \<open>None\<close>.
\<close>

definition handle_client :: "pylib \<Rightarrow> real \<Rightarrow> string \<Rightarrow> controller \<Rightarrow> json option \<times> controller" where
  "handle_client P now data c =
     (if data = [] then (None, c)
      else case json_loads P data of
             None \<Rightarrow> (None, c)
           | Some (JObj message) \<Rightarrow>
               (let action = dict_get message ''action'' JNull
                in if action = JStr ''REGISTER''
                   then (let r = handle_register P now message c in (Some (fst r), snd r))
                   else if action = JStr ''HEARTBEAT''
                   then (let r = handle_heartbeat P now message c in (Some (fst r), snd r))
                   else if action = JStr ''ACTIVE_NOTIFICATION''
                   then (let r = handle_active P now message c
                         in case fst r of Inl e \<Rightarrow> (None, snd r) | Inr resp \<Rightarrow> (Some resp, snd r))
                   else if action = JStr ''LIST_NODES'' then (Some (handle_list_nodes c), c)
                   else if action = JStr ''STATS'' then (Some (handle_stats c), c)
                   else (Some (error_response (''Unknown action: '' @ py_str P action)), c))
           | Some _ \<Rightarrow> (None, c))"

text \<open>
  \<open>_accept_loop\<close> over the connections that arrive, one payload and one clock reading
  each, handled in the order given: it counts the connection and hands it to
  \<open>_handle_client\<close>.  The result lists what each connection was sent.
\<close>

fun accept_loop :: "pylib \<Rightarrow> (real \<times> string) list \<Rightarrow> controller \<Rightarrow> json option list \<times> controller" where
  "accept_loop P [] c = ([], c)"
| "accept_loop P ((now, data) # rest) c =
     (let c1 = c\<lparr>total_connections := total_connections c + 1\<rparr>;
          r = handle_client P now data c1;
          rs = accept_loop P rest (snd r)
      in (fst r # fst rs, snd rs))"

section \<open>Liveness sweep (cloudsim/controller.py)\<close>

text \<open>
  One pass of the loop body of \<open>_heartbeat_monitor\<close> after the sleep.  The network is
  a parameter: \<open>sends env h p\<close> tells whether \<open>sendto\<close> gets a \<open>PING\<close> datagram out to
  \<open>(h, p)\<close> (it does not when the host does not resolve), and \<open>answers env h p\<close>
  whether data containing \<open>ALIVE\<close> comes back within the second.  For a port above
  65535 \<open>sendto\<close> raises before anything is sent.  The pass also records what it does
  with the registry lock and the network, in order: entering and leaving
  \<open>with self._lock\<close>, and each datagram sent by \<open>_ping_udp\<close>.
\<close>

record net_env =
  sends :: "string \<Rightarrow> int \<Rightarrow> bool"
  answers :: "string \<Rightarrow> int \<Rightarrow> bool"

datatype sweep_event = LockAcquire | LockRelease | NetProbe string int

definition ping_udp :: "net_env \<Rightarrow> string \<Rightarrow> int \<Rightarrow> sweep_event list \<times> bool" where
  "ping_udp env h p =
     (if p \<le> 0 then ([], False)
      else if 65535 < p \<or> \<not> sends env h p then ([], False)
      else ([NetProbe h p], answers env h p))"

text \<open>
  The loop over \<open>list(self._last_hb.items())\<close>, one item at a time.  The state is the
  record of events, the exception that has ended the loop (one of the two \<open>print\<close>
  calls raising; the items after it are not looked at), and the controller.
\<close>

definition sweep_node ::
  "pylib \<Rightarrow> net_env \<Rightarrow> real \<Rightarrow> real \<Rightarrow> string \<times> real \<Rightarrow>
   sweep_event list \<times> exn option \<times> controller \<Rightarrow> sweep_event list \<times> exn option \<times> controller" where
  "sweep_node P env now cutoff item st =
     (case item of (nid, last_t) \<Rightarrow> case st of (tr, ex, c) \<Rightarrow>
        if ex \<noteq> None then (tr, ex, c)
        else if last_t < cutoff then
          (case map_of (registered c) nid of
             None \<Rightarrow> (tr, None, c)
           | Some info \<Rightarrow>
               (let pr = ping_udp env (host info) (udp_port info)
                in if snd pr then
                     (tr @ fst pr, print_exn P (LogRefreshed nid),
                      c\<lparr>last_hb := AList.update nid now (last_hb c),
                        registered := AList.map_entry nid (\<lambda>i. i\<lparr>active := True\<rparr>) (registered c)\<rparr>)
                   else if active info then
                     (tr @ fst pr, print_exn P (LogInactive nid),
                      c\<lparr>registered := AList.map_entry nid (\<lambda>i. i\<lparr>active := False\<rparr>) (registered c)\<rparr>)
                   else (tr @ fst pr, None, c)))
        else (tr, None, c))"

text \<open>
  The result of a pass: the record of events, the exception that ended the monitor
  thread if one did (leaving the \<open>with\<close> block releases the lock then too), and the
  controller.
\<close>

record sweep_result =
  sweep_events :: "sweep_event list"
  sweep_exn :: "exn option"
  sweep_state :: controller

definition heartbeat_monitor :: "pylib \<Rightarrow> net_env \<Rightarrow> real \<Rightarrow> controller \<Rightarrow> sweep_result" where
  "heartbeat_monitor P env now c =
     (let cutoff = now - HEARTBEAT_TIMEOUT_SECONDS;
          st = fold (sweep_node P env now cutoff) (last_hb c) ([LockAcquire], None, c)
      in \<lparr>sweep_events = fst st @ [LockRelease], sweep_exn = fst (snd st),
          sweep_state = snd (snd st)\<rparr>)"


section \<open>Example inputs\<close>

text \<open>
  An active entry of the node list with the given id, storage and bandwidth, and the
  three nodes of the placement example of the specification.
\<close>

definition active_entry :: "string \<Rightarrow> int \<Rightarrow> int \<Rightarrow> node_entry" where
  "active_entry nid storage bw =
     \<lparr>ne_node_id = nid, ne_host = ''127.0.0.1'', ne_tcp_port = 8080, ne_udp_port = 5001,
      ne_active = True,
      ne_capacity = \<lparr>cpu = 4, memory_gb = 8, storage_bytes = storage, bandwidth_bps = bw\<rparr>\<rparr>"

definition example_nodes :: "node_entry list" where
  "example_nodes =
     [active_entry ''n1'' 100 500, active_entry ''n2'' 100 1000, active_entry ''n3'' 50 2000]"

text \<open>
  A planned transfer of 500 MiB (50 chunks of 10 MiB) to two targets.  At the
  simulated 100 Mbit/s a chunk takes between 0.67 and 1.01 seconds, so neither thread
  is done when the first join gives up after 30 seconds.  In \<open>slow_first_schedule\<close>
  the thread of the second target then finishes all 50 chunks and its join returns
  while the thread of the first target has delivered 45.
\<close>

definition big_transfer :: FileTransfer where
  "big_transfer =
     \<lparr>file_id = ''big-0-0'', file_name = ''big'', total_size = 500 * 1024 * 1024,
      chunks = gen_chunks (\<lambda>f i. f) ''big-0-0'' (500 * 1024 * 1024),
      status = PENDING, created_at = 0, completed_at = None\<rparr>"

definition slow_first_schedule :: "nat list" where
  "slow_first_schedule = replicate 45 0 @ replicate 50 1"

section \<open>Registry invariant and well-formed registrations\<close>

text \<open>
  What a Python dictionary keyed by node id guarantees of \<open>_registered\<close>: no key twice,
  and (as every handler stores a node under its own id) each record under its id.
\<close>

definition registry_ok :: "controller \<Rightarrow> bool" where
  "registry_ok c \<longleftrightarrow>
     distinct (map fst (registered c))
     \<and> list_all (\<lambda>kv. node_id (snd kv) = fst kv) (registered c)"

text \<open>
  The registrations \<open>_handle_register\<close> accepts, said without the order of its checks:
  the message has a \<open>node_id\<close> key; \<open>tcp_port\<close> and \<open>port\<close>, where present, are values
  \<open>int()\<close> converts (an integer, a boolean, or a string that \<open>int()\<close> parses); and
  \<open>capacity\<close>, where present, is a dictionary whose \<open>cpu\<close>, \<open>memory\<close>, \<open>storage\<close> and
  \<open>bandwidth\<close>, where present, are such values.  Nothing is asked of the sign of a
  number or of the text of the node id.
\<close>

definition int_like :: "pylib \<Rightarrow> json \<Rightarrow> bool" where
  "int_like P v =
     (case v of JInt i \<Rightarrow> True | JBool b \<Rightarrow> True | JStr s \<Rightarrow> int_of_str P s \<noteq> None
      | _ \<Rightarrow> False)"

definition absent_or_int :: "pylib \<Rightarrow> (string \<times> json) list \<Rightarrow> string \<Rightarrow> bool" where
  "absent_or_int P d k = (case map_of d k of None \<Rightarrow> True | Some v \<Rightarrow> int_like P v)"

definition well_formed_register :: "pylib \<Rightarrow> (string \<times> json) list \<Rightarrow> bool" where
  "well_formed_register P msg \<longleftrightarrow>
     map_of msg ''node_id'' \<noteq> None
     \<and> absent_or_int P msg ''tcp_port''
     \<and> absent_or_int P msg ''port''
     \<and> (case map_of msg ''capacity'' of
          None \<Rightarrow> True
        | Some (JObj d) \<Rightarrow>
            absent_or_int P d ''cpu'' \<and> absent_or_int P d ''memory''
            \<and> absent_or_int P d ''storage'' \<and> absent_or_int P d ''bandwidth''
        | Some _ \<Rightarrow> False)"




text \<open>
  A library instance for the examples: \<open>int()\<close> parses no string, \<open>print\<close> never
  raises, and the one payload that decodes is a dictionary with an action the
  controller does not know.  A network on which every probe is answered, and one on
  which every probe is sent and none answered.
\<close>

definition example_lib :: pylib where
  \<open>example_lib =
     \<lparr>int_of_str = (\<lambda>s. None), repr_of = (\<lambda>v. ''?''), exn_str = (\<lambda>e. ''error''),
      json_loads = (\<lambda>s. if s = ''{"action": "PING"}'' then Some (JObj [(''action'', JStr ''PING'')])
                          else None),
      print_exn = (\<lambda>l. None)\<rparr>\<close>

definition net_up :: net_env where
  "net_up = \<lparr>sends = (\<lambda>h p. True), answers = (\<lambda>h p. True)\<rparr>"

definition net_silent :: net_env where
  "net_silent = \<lparr>sends = (\<lambda>h p. True), answers = (\<lambda>h p. False)\<rparr>"

definition node_n1 :: NodeInfo where
  "node_n1 =
     \<lparr>node_id = ''n1'', host = ''127.0.0.1'', tcp_port = 8080, udp_port = 5001,
      capacity = \<lparr>cpu = 4, memory_gb = 8, storage_bytes = 100, bandwidth_bps = 500\<rparr>,
      registered_at = 0, last_seen = 0, active = False\<rparr>"

definition one_node_controller :: controller where
  "one_node_controller =
     \<lparr>port = 8080, registered = [(''n1'', node_n1)], last_hb = [(''n1'', 0)],
      total_connections = 1, total_data_transferred = 0\<rparr>"

section \<open>Chunking: proofs\<close>

lemma calc_chunk_size_pos: "0 < calc_chunk_size fs"
  by (simp add: calc_chunk_size_def)

lemma ceil_div_shift:
  fixes a c :: int
  assumes c: "0 < c"
  shows "(a + c - 1) div c = - (- a div c)"
proof (cases "a mod c = 0")
  case True
  then have "a = c * (a div c)"
    by (simp add: mod_eq_0_iff_dvd)
  then have "a + c - 1 = c * (a div c) + (c - 1)"
    by simp
  then have "(a + c - 1) div c = a div c"
    using c int_div_pos_eq [of "a + c - 1" c "a div c" "c - 1"] by simp
  moreover have "- a div c = - (a div c)"
    using True c by (simp add: zdiv_zminus1_eq_if)
  ultimately show ?thesis by simp
next
  case False
  have "0 \<le> a mod c" using c by simp
  with False have r: "0 < a mod c" "a mod c < c"
    using c by (linarith, simp)
  have "a + c - 1 = c * (a div c + 1) + (a mod c - 1)"
    by (simp add: algebra_simps)
  then have "(a + c - 1) div c = a div c + 1"
    using r int_div_pos_eq [of "a + c - 1" c "a div c + 1" "a mod c - 1"] by simp
  moreover have "- a div c = - (a div c) - 1"
    using False c by (simp add: zdiv_zminus1_eq_if)
  ultimately show ?thesis by simp
qed

lemma ceiling_chunks:
  "\<lceil>real_of_int fs / real_of_int (calc_chunk_size fs)\<rceil>
     = (fs + calc_chunk_size fs - 1) div calc_chunk_size fs"
  by (simp only: ceiling_divide_eq_div ceil_div_shift [OF calc_chunk_size_pos])

lemma length_gen_chunks:
  "int (length (gen_chunks d fid fs)) = max 0 ((fs + calc_chunk_size fs - 1) div calc_chunk_size fs)"
  by (simp add: gen_chunks_def Let_def)

lemma chunk_count_nonneg:
  assumes "0 \<le> fs"
  shows "0 \<le> (fs + calc_chunk_size fs - 1) div calc_chunk_size fs"
  using assms calc_chunk_size_pos [of fs] by (simp add: pos_imp_zdiv_nonneg_iff)

lemma nth_gen_chunks:
  assumes "i < length (gen_chunks d fid fs)"
  shows "gen_chunks d fid fs ! i =
     \<lparr>chunk_id = int i, chunk_size = min (calc_chunk_size fs) (fs - int i * calc_chunk_size fs),
      checksum = d fid (int i), chunk_status = PENDING, stored_node = None\<rparr>"
  using assms by (simp add: gen_chunks_def Let_def)

lemma chunk_offset_below:
  assumes "i < length (gen_chunks d fid fs)"
  shows "int i * calc_chunk_size fs < fs"
proof -
  let ?c = "calc_chunk_size fs"
  have c: "0 < ?c" by (rule calc_chunk_size_pos)
  from assms have "int i + 1 \<le> (fs + ?c - 1) div ?c"
    using length_gen_chunks [of d fid fs] by simp
  then have "(int i + 1) * ?c \<le> ((fs + ?c - 1) div ?c) * ?c"
    using c by (simp add: mult_right_mono)
  also have "\<dots> \<le> fs + ?c - 1"
  proof -
    have "0 \<le> (fs + ?c - 1) mod ?c" using c by simp
    then show ?thesis using div_mult_mod_eq [of "fs + ?c - 1" ?c] by linarith
  qed
  finally show ?thesis by (simp add: algebra_simps)
qed

lemma chunk_size_bounds:
  assumes "i < length (gen_chunks d fid fs)"
  shows "0 < chunk_size (gen_chunks d fid fs ! i)"
    and "chunk_size (gen_chunks d fid fs ! i) \<le> calc_chunk_size fs"
  using chunk_offset_below [OF assms] calc_chunk_size_pos [of fs]
  by (simp_all add: nth_gen_chunks [OF assms])

lemma chunk_full_before_last:
  assumes "Suc i < length (gen_chunks d fid fs)"
  shows "chunk_size (gen_chunks d fid fs ! i) = calc_chunk_size fs"
proof -
  have "int (Suc i) * calc_chunk_size fs < fs"
    by (rule chunk_offset_below [OF assms])
  then have "calc_chunk_size fs \<le> fs - int i * calc_chunk_size fs"
    by (simp add: algebra_simps)
  moreover have "i < length (gen_chunks d fid fs)"
    using assms by simp
  ultimately show ?thesis
    by (simp add: nth_gen_chunks)
qed

lemma chunk_last_rest:
  assumes n: "length (gen_chunks d fid fs) = Suc k"
  shows "chunk_size (gen_chunks d fid fs ! k) = fs - int k * calc_chunk_size fs"
proof -
  define c where "c = calc_chunk_size fs"
  define q where "q = (fs + c - 1) div c"
  define m where "m = (fs + c - 1) mod c"
  have c: "0 < c" unfolding c_def by (rule calc_chunk_size_pos)
  have q: "q = int k + 1"
    using length_gen_chunks [of d fid fs] n by (simp add: q_def c_def)
  have "q * c + m = fs + c - 1"
    unfolding q_def m_def by (rule div_mult_mod_eq)
  moreover have "m < c" unfolding m_def using c by simp
  moreover have "q * c = int k * c + c"
    by (simp add: q algebra_simps)
  ultimately have "fs - int k * c \<le> c"
    by linarith
  then show ?thesis
    using n by (simp add: nth_gen_chunks c_def)
qed

lemma sum_full_then_rest:
  fixes f :: "nat \<Rightarrow> int"
  assumes "\<And>i. i < k \<Longrightarrow> f i = c"
  shows "(\<Sum>i<Suc k. f i) = int k * c + f k"
  using assms by simp

lemma sum_chunk_sizes:
  assumes "0 \<le> fs"
  shows "sum_list (map chunk_size (gen_chunks d fid fs)) = fs"
proof (cases "length (gen_chunks d fid fs)")
  case 0
  then have "(fs + calc_chunk_size fs - 1) div calc_chunk_size fs \<le> 0"
    using length_gen_chunks [of d fid fs] by simp
  then have "fs + calc_chunk_size fs - 1 < calc_chunk_size fs"
    using calc_chunk_size_pos [of fs]
    by (metis add.commute add_0 div_pos_geq less_le_not_le not_le zless_imp_add1_zle zero_less_one pos_imp_zdiv_pos_iff)
  with assms have "fs = 0" by simp
  with 0 show ?thesis by simp
next
  case (Suc k)
  let ?cs = "gen_chunks d fid fs"
  have "sum_list (map chunk_size ?cs) = (\<Sum>i<Suc k. chunk_size (?cs ! i))"
    using Suc by (simp add: sum_list_sum_nth atLeast0LessThan del: sum.lessThan_Suc)
  also have "\<dots> = int k * calc_chunk_size fs + chunk_size (?cs ! k)"
  proof (rule sum_full_then_rest)
    fix i assume "i < k"
    then have "Suc i < length ?cs" using Suc by simp
    then show "chunk_size (?cs ! i) = calc_chunk_size fs"
      by (rule chunk_full_before_last)
  qed
  also have "\<dots> = fs"
    by (simp add: chunk_last_rest [OF Suc])
  finally show ?thesis .
qed

lemma sizes_9MiB:
  "map chunk_size (gen_chunks d fid (9 * 1024 * 1024)) = replicate 18 (512 * 1024)"
  by (simp add: gen_chunks_def calc_chunk_size_def Let_def list_eq_iff_nth_eq)

lemma sizes_50MiB:
  "map chunk_size (gen_chunks d fid (50 * 1024 * 1024)) = replicate 25 (2 * 1024 * 1024)"
  by (simp add: gen_chunks_def calc_chunk_size_def Let_def list_eq_iff_nth_eq)

lemma sizes_250MiB:
  "map chunk_size (gen_chunks d fid (250 * 1024 * 1024)) = replicate 25 (10 * 1024 * 1024)"
  by (simp add: gen_chunks_def calc_chunk_size_def Let_def list_eq_iff_nth_eq)

text \<open>
  Claim C4.  The chunk size is 512 KiB for a file below 10 MiB, 2 MiB for a file below
  100 MiB and 10 MiB otherwise.  For a file size that is not negative, the number of
  chunks is the ceiling of file size over chunk size; the chunks are numbered from
  zero, every chunk but the last has the chunk size, the last one has what remains
  (more than nothing and at most the chunk size), and the sizes add up to the file
  size.  A 9 MiB file gives 18 chunks of 512 KiB, a 50 MiB file 25 chunks of 2 MiB and
  a 250 MiB file 25 chunks of 10 MiB.
\<close>

theorem gen_chunks_policy:
  assumes "0 \<le> file_size"
  shows "(file_size < 10 * 1024 * 1024 \<longrightarrow> calc_chunk_size file_size = 512 * 1024)
       \<and> (10 * 1024 * 1024 \<le> file_size \<and> file_size < 100 * 1024 * 1024
            \<longrightarrow> calc_chunk_size file_size = 2 * 1024 * 1024)
       \<and> (100 * 1024 * 1024 \<le> file_size \<longrightarrow> calc_chunk_size file_size = 10 * 1024 * 1024)
       \<and> int (length (gen_chunks d fid file_size))
            = \<lceil>real_of_int file_size / real_of_int (calc_chunk_size file_size)\<rceil>
       \<and> (\<forall>i < length (gen_chunks d fid file_size).
             chunk_id (gen_chunks d fid file_size ! i) = int i
           \<and> 0 < chunk_size (gen_chunks d fid file_size ! i)
           \<and> chunk_size (gen_chunks d fid file_size ! i) \<le> calc_chunk_size file_size
           \<and> (Suc i < length (gen_chunks d fid file_size)
                \<longrightarrow> chunk_size (gen_chunks d fid file_size ! i) = calc_chunk_size file_size)
           \<and> (Suc i = length (gen_chunks d fid file_size)
                \<longrightarrow> chunk_size (gen_chunks d fid file_size ! i)
                      = file_size - int i * calc_chunk_size file_size))
       \<and> sum_list (map chunk_size (gen_chunks d fid file_size)) = file_size
       \<and> map chunk_size (gen_chunks d fid (9 * 1024 * 1024)) = replicate 18 (512 * 1024)
       \<and> map chunk_size (gen_chunks d fid (50 * 1024 * 1024)) = replicate 25 (2 * 1024 * 1024)
       \<and> map chunk_size (gen_chunks d fid (250 * 1024 * 1024)) = replicate 25 (10 * 1024 * 1024)"
proof -
  have sizes: "(file_size < 10 * 1024 * 1024 \<longrightarrow> calc_chunk_size file_size = 512 * 1024)
       \<and> (10 * 1024 * 1024 \<le> file_size \<and> file_size < 100 * 1024 * 1024
            \<longrightarrow> calc_chunk_size file_size = 2 * 1024 * 1024)
       \<and> (100 * 1024 * 1024 \<le> file_size \<longrightarrow> calc_chunk_size file_size = 10 * 1024 * 1024)"
    by (simp add: calc_chunk_size_def)
  have count: "int (length (gen_chunks d fid file_size))
            = \<lceil>real_of_int file_size / real_of_int (calc_chunk_size file_size)\<rceil>"
    using chunk_count_nonneg [OF assms]
    by (simp only: ceiling_chunks length_gen_chunks max_def if_True)
  have each: "\<forall>i < length (gen_chunks d fid file_size).
             chunk_id (gen_chunks d fid file_size ! i) = int i
           \<and> 0 < chunk_size (gen_chunks d fid file_size ! i)
           \<and> chunk_size (gen_chunks d fid file_size ! i) \<le> calc_chunk_size file_size
           \<and> (Suc i < length (gen_chunks d fid file_size)
                \<longrightarrow> chunk_size (gen_chunks d fid file_size ! i) = calc_chunk_size file_size)
           \<and> (Suc i = length (gen_chunks d fid file_size)
                \<longrightarrow> chunk_size (gen_chunks d fid file_size ! i)
                      = file_size - int i * calc_chunk_size file_size)"
  proof (intro allI impI conjI)
    fix i assume i: "i < length (gen_chunks d fid file_size)"
    show "chunk_id (gen_chunks d fid file_size ! i) = int i"
      by (simp add: nth_gen_chunks [OF i])
    show "0 < chunk_size (gen_chunks d fid file_size ! i)"
      by (rule chunk_size_bounds(1) [OF i])
    show "chunk_size (gen_chunks d fid file_size ! i) \<le> calc_chunk_size file_size"
      by (rule chunk_size_bounds(2) [OF i])
  next
    fix i assume "Suc i < length (gen_chunks d fid file_size)"
    then show "chunk_size (gen_chunks d fid file_size ! i) = calc_chunk_size file_size"
      by (rule chunk_full_before_last)
  next
    fix i assume "Suc i = length (gen_chunks d fid file_size)"
    then show "chunk_size (gen_chunks d fid file_size ! i)
                 = file_size - int i * calc_chunk_size file_size"
      by (simp add: chunk_last_rest)
  qed
  from sizes count each sum_chunk_sizes [OF assms, of d fid]
    sizes_9MiB [of d fid] sizes_50MiB [of d fid] sizes_250MiB [of d fid]
  show ?thesis by blast
qed

theorem gen_chunks_policy_witness:
  "(0::int) \<le> 1300000
   \<and> int (length (gen_chunks (\<lambda>f i. f) ''a'' 1300000)) = \<lceil>real_of_int 1300000 / real_of_int (512 * 1024)\<rceil>
   \<and> sum_list (map chunk_size (gen_chunks (\<lambda>f i. f) ''a'' 1300000)) = 1300000"
proof -
  have h: "(0::int) \<le> 1300000" by simp
  have c: "calc_chunk_size 1300000 = 512 * 1024" by (simp add: calc_chunk_size_def)
  show ?thesis
    using h gen_chunks_policy [OF h, of "\<lambda>f i. f" "''a''"] by (simp only: c)
qed


section \<open>Placement: proofs\<close>

lemma py_sort_reverse_mset: "mset (py_sort_reverse key xs) = mset xs"
  by (simp add: py_sort_reverse_def)

lemma py_sort_reverse_descending:
  "sorted_wrt (\<lambda>a b. key b \<le> key a) (py_sort_reverse key xs)"
proof -
  have "sorted (map key (sort_key key (rev xs)))"
    by (rule sorted_sort_key)
  then have "sorted_wrt (\<lambda>a b. key a \<le> key b) (sort_key key (rev xs))"
    by (simp add: sorted_map)
  then show ?thesis
    by (simp add: py_sort_reverse_def sorted_wrt_rev)
qed

lemma py_sort_reverse_stable:
  "filter (\<lambda>x. key x = k) (py_sort_reverse key xs) = filter (\<lambda>x. key x = k) xs"
proof -
  have "filter (\<lambda>x. key x = k) (py_sort_reverse key xs)
          = rev (filter (\<lambda>x. key x = k) (sort_key key (rev xs)))"
    by (simp add: py_sort_reverse_def rev_filter)
  also have "\<dots> = rev (filter (\<lambda>x. key x = k) (rev xs))"
    by (simp only: sort_key_stable)
  also have "\<dots> = filter (\<lambda>x. key x = k) xs"
    by (simp add: rev_filter)
  finally show ?thesis .
qed

lemma estimated_available_max:
  "estimated_available r n
     = max 0 (storage_bytes (ne_capacity n) - reserved_get r (ne_node_id n))"
  by (simp add: estimated_available_def Let_def max_def)

lemma suitable_nodes_filter:
  "suitable_nodes r nodes fs
     = filter (\<lambda>n. ne_active n
                 \<and> fs \<le> max 0 (storage_bytes (ne_capacity n) - reserved_get r (ne_node_id n)))
         nodes"
  by (simp add: suitable_nodes_def Let_def estimated_available_max conj_commute)

lemma suitable_nodes_positive:
  assumes "0 < fs"
  shows "suitable_nodes r nodes fs
     = filter (\<lambda>n. ne_active n
                 \<and> fs \<le> storage_bytes (ne_capacity n) - reserved_get r (ne_node_id n))
         nodes"
proof -
  have "\<And>x::int. fs \<le> max 0 x \<longleftrightarrow> fs \<le> x"
    using assms by (auto simp: max_def)
  then show ?thesis
    by (simp add: suitable_nodes_filter)
qed

lemma example_selection:
  assumes "fs \<le> 100"
  shows "select_targets Map.empty example_nodes 2 fs = [''n2'', ''n1'']"
proof (cases "fs \<le> 50")
  case True
  then show ?thesis
    by (simp add: select_targets_def suitable_nodes_def py_sort_reverse_def py_prefix_def
        rank_key_def estimated_available_def reserved_get_def example_nodes_def
        active_entry_def Let_def)
next
  case False
  with assms show ?thesis
    by (simp add: select_targets_def suitable_nodes_def py_sort_reverse_def py_prefix_def
        rank_key_def estimated_available_def reserved_get_def example_nodes_def
        active_entry_def Let_def)
qed

text \<open>
  Claim C3, as the claim states it, fails: the estimate is not storage minus reserved
  bytes where that difference is negative.  A node with 10 bytes of storage of which
  the ledger holds 20 reserved is selected for a file of size 0, although its storage
  minus its reserved bytes is below the file size.
\<close>

theorem select_targets_counterexample:
  "select_targets (Map.empty(''n1'' \<mapsto> 20)) [active_entry ''n1'' 10 500] 1 0 = [''n1'']
   \<and> \<not> (0 \<le> storage_bytes (ne_capacity (active_entry ''n1'' 10 500))
               - reserved_get (Map.empty(''n1'' \<mapsto> 20)) (ne_node_id (active_entry ''n1'' 10 500)))"
  by (simp add: select_targets_def suitable_nodes_def py_sort_reverse_def py_prefix_def
      rank_key_def estimated_available_def reserved_get_def active_entry_def Let_def)

text \<open>
  Claim C3, amended.  The estimate of a node is its declared storage minus the bytes
  the ledger holds reserved for it, and zero where that difference is negative.  For a
  replication factor that is not negative, the selection is the ids of the first
  \<open>replication\<close> nodes of a ranking which holds exactly the active nodes whose
  estimate is at least the file size, in descending order of the pair (estimate,
  declared bandwidth), nodes with equal pairs staying in the order of the snapshot.
  For a positive file size the candidates are the active nodes whose storage minus
  reserved bytes is at least the file size.  For the three example nodes, a
  replication factor of 2 and any file size up to 100, the selection is the
  (100,1000) node, then the (100,500) node.
\<close>

theorem select_targets_ranking:
  assumes "0 \<le> replication"
  shows "(\<exists>ranked.
            select_targets r nodes replication file_size
              = map ne_node_id (take (nat replication) ranked)
          \<and> mset ranked
              = mset (filter (\<lambda>n. ne_active n
                    \<and> file_size \<le> max 0 (storage_bytes (ne_capacity n) - reserved_get r (ne_node_id n)))
                  nodes)
          \<and> sorted_wrt (\<lambda>a b.
                max 0 (storage_bytes (ne_capacity b) - reserved_get r (ne_node_id b))
                  < max 0 (storage_bytes (ne_capacity a) - reserved_get r (ne_node_id a))
              \<or> (max 0 (storage_bytes (ne_capacity b) - reserved_get r (ne_node_id b))
                    = max 0 (storage_bytes (ne_capacity a) - reserved_get r (ne_node_id a))
                  \<and> bandwidth_bps (ne_capacity b) \<le> bandwidth_bps (ne_capacity a))) ranked
          \<and> (\<forall>av bw.
                filter (\<lambda>n. max 0 (storage_bytes (ne_capacity n) - reserved_get r (ne_node_id n)) = av
                           \<and> bandwidth_bps (ne_capacity n) = bw) ranked
                = filter (\<lambda>n. max 0 (storage_bytes (ne_capacity n) - reserved_get r (ne_node_id n)) = av
                           \<and> bandwidth_bps (ne_capacity n) = bw)
                    (filter (\<lambda>n. ne_active n
                        \<and> file_size \<le> max 0 (storage_bytes (ne_capacity n) - reserved_get r (ne_node_id n)))
                      nodes)))
       \<and> (0 < file_size \<longrightarrow>
            filter (\<lambda>n. ne_active n
                \<and> file_size \<le> max 0 (storage_bytes (ne_capacity n) - reserved_get r (ne_node_id n))) nodes
            = filter (\<lambda>n. ne_active n
                \<and> file_size \<le> storage_bytes (ne_capacity n) - reserved_get r (ne_node_id n)) nodes)
       \<and> (\<forall>fs \<le> 100. select_targets Map.empty example_nodes 2 fs = [''n2'', ''n1''])"
proof (intro conjI)
  let ?ranked = "py_sort_reverse (rank_key r) (suitable_nodes r nodes file_size)"
  let ?av = "\<lambda>n. max 0 (storage_bytes (ne_capacity n) - reserved_get r (ne_node_id n))"
  have key: "\<And>n. rank_key r n = (?av n, bandwidth_bps (ne_capacity n))"
    by (simp add: rank_key_def estimated_available_max)
  have sel: "select_targets r nodes replication file_size
               = map ne_node_id (take (nat replication) ?ranked)"
    using assms by (simp add: select_targets_def py_prefix_def Let_def)
  have perm: "mset ?ranked = mset (filter (\<lambda>n. ne_active n \<and> file_size \<le> ?av n) nodes)"
    by (simp only: py_sort_reverse_mset suitable_nodes_filter)
  have "sorted_wrt (\<lambda>a b. rank_key r b \<le> rank_key r a) ?ranked"
    by (rule py_sort_reverse_descending)
  then have desc: "sorted_wrt (\<lambda>a b. ?av b < ?av a
      \<or> (?av b = ?av a \<and> bandwidth_bps (ne_capacity b) \<le> bandwidth_bps (ne_capacity a))) ?ranked"
    by (rule sorted_wrt_mono_rel [rotated]) (auto simp: key)
  have stable: "\<forall>av bw.
      filter (\<lambda>n. ?av n = av \<and> bandwidth_bps (ne_capacity n) = bw) ?ranked
      = filter (\<lambda>n. ?av n = av \<and> bandwidth_bps (ne_capacity n) = bw)
          (filter (\<lambda>n. ne_active n \<and> file_size \<le> ?av n) nodes)"
  proof (intro allI)
    fix av bw
    have "filter (\<lambda>n. rank_key r n = (av, bw)) ?ranked
            = filter (\<lambda>n. rank_key r n = (av, bw)) (suitable_nodes r nodes file_size)"
      by (rule py_sort_reverse_stable)
    then show "filter (\<lambda>n. ?av n = av \<and> bandwidth_bps (ne_capacity n) = bw) ?ranked
      = filter (\<lambda>n. ?av n = av \<and> bandwidth_bps (ne_capacity n) = bw)
          (filter (\<lambda>n. ne_active n \<and> file_size \<le> ?av n) nodes)"
      by (simp only: key prod.inject suitable_nodes_filter)
  qed
  from sel perm desc stable
  show "\<exists>ranked.
            select_targets r nodes replication file_size
              = map ne_node_id (take (nat replication) ranked)
          \<and> mset ranked = mset (filter (\<lambda>n. ne_active n \<and> file_size \<le> ?av n) nodes)
          \<and> sorted_wrt (\<lambda>a b. ?av b < ?av a
              \<or> (?av b = ?av a \<and> bandwidth_bps (ne_capacity b) \<le> bandwidth_bps (ne_capacity a))) ranked
          \<and> (\<forall>av bw.
                filter (\<lambda>n. ?av n = av \<and> bandwidth_bps (ne_capacity n) = bw) ranked
                = filter (\<lambda>n. ?av n = av \<and> bandwidth_bps (ne_capacity n) = bw)
                    (filter (\<lambda>n. ne_active n \<and> file_size \<le> ?av n) nodes))"
    by blast
  show "0 < file_size \<longrightarrow>
            filter (\<lambda>n. ne_active n \<and> file_size \<le> ?av n) nodes
            = filter (\<lambda>n. ne_active n
                \<and> file_size \<le> storage_bytes (ne_capacity n) - reserved_get r (ne_node_id n)) nodes"
    using suitable_nodes_positive [of file_size r nodes]
    by (simp only: suitable_nodes_filter) blast
  show "\<forall>fs \<le> 100. select_targets Map.empty example_nodes 2 fs = [''n2'', ''n1'']"
    by (simp add: example_selection)
qed

theorem select_targets_ranking_witness:
  "(0::int) \<le> 2 \<and> (0::int) < 60 \<and> (60::int) \<le> 100
   \<and> select_targets Map.empty example_nodes 2 60 = [''n2'', ''n1'']"
proof -
  have h: "(0::int) \<le> 2" by simp
  show ?thesis
    using select_targets_ranking [OF h, of Map.empty example_nodes 60] by simp
qed

section \<open>Reservation ledger: proofs\<close>

lemma reserved_get_reserve:
  "reserved_get (reserve targets sz r) nid
     = reserved_get r nid + sz * int (count_list targets nid)"
proof -
  have "reserved_get (fold (\<lambda>nid r. r(nid \<mapsto> reserved_get r nid + sz)) targets r) nid
          = reserved_get r nid + sz * int (count_list targets nid)"
    by (induction targets arbitrary: r) (auto simp: reserved_get_def algebra_simps)
  then show ?thesis
    by (simp add: reserve_def)
qed

lemma reserved_get_release:
  "reserved_get (release targets sz r) nid
     = reserved_get r nid - sz * int (count_list targets nid)"
proof -
  have "reserved_get (fold (\<lambda>nid r. r(nid \<mapsto> reserved_get r nid - sz)) targets r) nid
          = reserved_get r nid - sz * int (count_list targets nid)"
    by (induction targets arbitrary: r) (auto simp: reserved_get_def algebra_simps)
  then show ?thesis
    by (simp add: release_def)
qed

lemma ledger_after_execute:
  "ledger_after (execute now schedule start_fault t targets r) = release targets (total_size t) r"
  by (simp add: execute_def Let_def)

lemma py_prefix_take: "\<exists>m. py_prefix xs k = take m xs"
  by (auto simp: py_prefix_def)

lemma select_targets_distinct:
  assumes "distinct (map ne_node_id nodes)"
  shows "distinct (select_targets r nodes replication fs)"
proof -
  let ?cands = "suitable_nodes r nodes fs"
  let ?ranked = "py_sort_reverse (rank_key r) ?cands"
  have "distinct (map ne_node_id ?cands)"
    using assms by (simp add: suitable_nodes_def Let_def distinct_map_filter)
  moreover have "mset (map ne_node_id ?ranked) = mset (map ne_node_id ?cands)"
    by (simp add: py_sort_reverse_mset)
  ultimately have d: "distinct (map ne_node_id ?ranked)"
    by (metis mset_eq_imp_distinct_iff)
  obtain m where "py_prefix ?ranked replication = take m ?ranked"
    using py_prefix_take by blast
  then have "select_targets r nodes replication fs = take m (map ne_node_id ?ranked)"
    by (simp add: select_targets_def Let_def take_map)
  with d show ?thesis
    by simp
qed

lemma count_list_distinct:
  assumes "distinct xs"
  shows "count_list xs x = (if x \<in> set xs then 1 else 0)"
  using assms by (induction xs) auto

lemma initiate_transfer_Some:
  assumes "select_targets r nodes replication fs \<noteq> []"
  shows "initiate_transfer digest now suffix nodes r fname fs replication
     = Some (\<lparr>file_id = map (\<lambda>ch. if ch = CHR '' '' then CHR ''_'' else ch) fname @ suffix,
              file_name = fname, total_size = fs,
              chunks = gen_chunks digest
                         (map (\<lambda>ch. if ch = CHR '' '' then CHR ''_'' else ch) fname @ suffix) fs,
              status = PENDING, created_at = now, completed_at = None\<rparr>,
             select_targets r nodes replication fs,
             reserve (select_targets r nodes replication fs) fs r)"
  using assms by (simp add: initiate_transfer_def Let_def)

text \<open>
  Claim C2.  When planning selects at least one target it returns a transfer, the
  targets and a ledger in which every node holds its earlier reservation plus the file
  size for each time it is a target: exactly the file size more for each target when
  the node ids of the snapshot are distinct, and nothing more for a node that is not
  a target.  Whatever the threads do and also when the executor's body raises, the
  executor takes the file size off every target once: from the ledger planning
  returned the result is the ledger before planning, and from any ledger the transfer
  takes off exactly what it put on.
\<close>

theorem reservation_net_zero:
  assumes "select_targets r nodes replication file_size \<noteq> []"
  shows "\<exists>t r1.
           initiate_transfer digest now suffix nodes r fname file_size replication
             = Some (t, select_targets r nodes replication file_size, r1)
         \<and> total_size t = file_size
         \<and> (\<forall>nid. reserved_get r1 nid
               = reserved_get r nid
                 + file_size * int (count_list (select_targets r nodes replication file_size) nid))
         \<and> (distinct (map ne_node_id nodes) \<longrightarrow>
               (\<forall>nid \<in> set (select_targets r nodes replication file_size).
                  reserved_get r1 nid = reserved_get r nid + file_size)
             \<and> (\<forall>nid. nid \<notin> set (select_targets r nodes replication file_size)
                  \<longrightarrow> reserved_get r1 nid = reserved_get r nid))
         \<and> (\<forall>now' schedule start_fault nid.
               reserved_get (ledger_after (execute now' schedule start_fault t
                   (select_targets r nodes replication file_size) r1)) nid
               = reserved_get r nid)
         \<and> (\<forall>now' schedule start_fault r' nid.
               reserved_get (ledger_after (execute now' schedule start_fault t
                   (select_targets r nodes replication file_size) r')) nid
               = reserved_get r' nid
                 - file_size * int (count_list (select_targets r nodes replication file_size) nid))"
proof -
  let ?targets = "select_targets r nodes replication file_size"
  let ?fid = "map (\<lambda>ch. if ch = CHR '' '' then CHR ''_'' else ch) fname @ suffix"
  let ?t = "\<lparr>file_id = ?fid, file_name = fname, total_size = file_size,
             chunks = gen_chunks digest ?fid file_size,
             status = PENDING, created_at = now, completed_at = None\<rparr>"
  let ?r1 = "reserve ?targets file_size r"
  have plan: "initiate_transfer digest now suffix nodes r fname file_size replication
                = Some (?t, ?targets, ?r1)"
    by (rule initiate_transfer_Some [OF assms])
  have size: "total_size ?t = file_size"
    by simp
  have added: "\<forall>nid. reserved_get ?r1 nid
                 = reserved_get r nid + file_size * int (count_list ?targets nid)"
    by (simp add: reserved_get_reserve)
  have once: "distinct (map ne_node_id nodes) \<longrightarrow>
               (\<forall>nid \<in> set ?targets. reserved_get ?r1 nid = reserved_get r nid + file_size)
             \<and> (\<forall>nid. nid \<notin> set ?targets \<longrightarrow> reserved_get ?r1 nid = reserved_get r nid)"
  proof
    assume "distinct (map ne_node_id nodes)"
    then have "distinct ?targets"
      by (rule select_targets_distinct)
    then show "(\<forall>nid \<in> set ?targets. reserved_get ?r1 nid = reserved_get r nid + file_size)
             \<and> (\<forall>nid. nid \<notin> set ?targets \<longrightarrow> reserved_get ?r1 nid = reserved_get r nid)"
      by (simp add: reserved_get_reserve count_list_distinct)
  qed
  have zero: "\<forall>now' schedule start_fault nid.
               reserved_get (ledger_after (execute now' schedule start_fault ?t ?targets ?r1)) nid
               = reserved_get r nid"
    by (simp add: ledger_after_execute reserved_get_release reserved_get_reserve)
  have off: "\<forall>now' schedule start_fault r' nid.
               reserved_get (ledger_after (execute now' schedule start_fault ?t ?targets r')) nid
               = reserved_get r' nid - file_size * int (count_list ?targets nid)"
    by (simp add: ledger_after_execute reserved_get_release)
  from plan size added once zero off show ?thesis
    by blast
qed

theorem reservation_net_zero_witness:
  "select_targets Map.empty example_nodes 2 60 \<noteq> []
   \<and> (\<exists>t r1.
         initiate_transfer (\<lambda>f i. f) 0 ''-1-2'' example_nodes Map.empty ''a b'' 60 2
           = Some (t, [''n2'', ''n1''], r1)
       \<and> reserved_get r1 ''n2'' = 60
       \<and> reserved_get r1 ''n3'' = 0
       \<and> reserved_get (ledger_after (execute 1 [0, 1] None t [''n2'', ''n1''] r1)) ''n2'' = 0
       \<and> reserved_get (ledger_after (execute 1 [] (Some 0) t [''n2'', ''n1''] r1)) ''n2'' = 0)"
proof -
  have sel: "select_targets Map.empty example_nodes 2 60 = [''n2'', ''n1'']"
    by (rule example_selection) simp
  have h: "select_targets Map.empty example_nodes 2 60 \<noteq> []"
    by (simp add: sel)
  have d: "distinct (map ne_node_id example_nodes)"
    by (simp add: example_nodes_def active_entry_def)
  obtain t r1 where
    p: "initiate_transfer (\<lambda>f i. f) 0 ''-1-2'' example_nodes Map.empty ''a b'' 60 2
          = Some (t, [''n2'', ''n1''], r1)"
    and once: "\<forall>nid \<in> set [''n2'', ''n1'']. reserved_get r1 nid = reserved_get Map.empty nid + 60"
    and other: "\<forall>nid. nid \<notin> set [''n2'', ''n1''] \<longrightarrow> reserved_get r1 nid = reserved_get Map.empty nid"
    and zero: "\<forall>now' schedule start_fault nid.
        reserved_get (ledger_after (execute now' schedule start_fault t [''n2'', ''n1''] r1)) nid
          = reserved_get Map.empty nid"
    using reservation_net_zero [OF h, of "\<lambda>f i. f" 0 "''-1-2''" "''a b''"] d
    unfolding sel by blast
  have "reserved_get r1 ''n2'' = 60"
    using once by (simp add: reserved_get_def)
  moreover have "reserved_get r1 ''n3'' = 0"
    using other by (simp add: reserved_get_def)
  moreover have "reserved_get (ledger_after (execute 1 [0, 1] None t [''n2'', ''n1''] r1)) ''n2'' = 0"
    using zero by (simp add: reserved_get_def)
  moreover have "reserved_get (ledger_after (execute 1 [] (Some 0) t [''n2'', ''n1''] r1)) ''n2'' = 0"
    using zero by (simp add: reserved_get_def)
  ultimately show ?thesis
    using h p by blast
qed

section \<open>Transfer executor: proofs\<close>

lemma deliver_eq:
  "deliver T s i (cs, pos) =
     (if i < s \<and> i < length T \<and> pos ! i < length cs
      then (cs[pos ! i := (cs ! (pos ! i))\<lparr>chunk_status := COMPLETED, stored_node := Some (T ! i)\<rparr>],
            pos[i := Suc (pos ! i)])
      else (cs, pos))"
  by (simp add: deliver_def)

lemma fold_deliver_length:
  "length (fst (fold (deliver T s) sched (cs, pos))) = length cs
   \<and> length (snd (fold (deliver T s) sched (cs, pos))) = length pos"
  by (induction sched arbitrary: cs pos) (simp_all add: deliver_eq)

lemma fold_deliver_pos:
  assumes "i < length pos" and "length pos = length T" and "pos ! i \<le> length cs"
  shows "snd (fold (deliver T s) sched (cs, pos)) ! i
           = (if i < s then min (pos ! i + count_list sched i) (length cs) else pos ! i)"
  using assms
proof (induction sched arbitrary: cs pos)
  case Nil
  then show ?case by simp
next
  case (Cons k sched)
  show ?case
  proof (cases "k < s \<and> k < length T \<and> pos ! k < length cs")
    case True
    define cs1 where
      "cs1 = cs[pos ! k := (cs ! (pos ! k))\<lparr>chunk_status := COMPLETED, stored_node := Some (T ! k)\<rparr>]"
    define pos1 where "pos1 = pos[k := Suc (pos ! k)]"
    have step: "deliver T s k (cs, pos) = (cs1, pos1)"
      using True by (simp add: deliver_eq cs1_def pos1_def)
    have p1: "pos1 ! i = (if i = k then Suc (pos ! i) else pos ! i)"
      using Cons.prems(1) by (simp add: pos1_def nth_list_update)
    have b: "pos1 ! i \<le> length cs1"
      using Cons.prems True by (auto simp: p1 cs1_def)
    have a: "i < length pos1" "length pos1 = length T"
      using Cons.prems by (simp_all add: pos1_def)
    have "snd (fold (deliver T s) sched (cs1, pos1)) ! i
           = (if i < s then min (pos1 ! i + count_list sched i) (length cs1) else pos1 ! i)"
      by (rule Cons.IH [OF a b])
    then show ?thesis
      using True by (auto simp: step p1 cs1_def)
  next
    case False
    have step: "deliver T s k (cs, pos) = (cs, pos)"
      using False by (auto simp: deliver_eq)
    have ih: "snd (fold (deliver T s) sched (cs, pos)) ! i
           = (if i < s then min (pos ! i + count_list sched i) (length cs) else pos ! i)"
      using Cons.prems by (rule Cons.IH)
    show ?thesis
    proof (cases "i = k \<and> i < s")
      case True
      with False Cons.prems have "pos ! i = length cs" by auto
      then show ?thesis by (simp add: step ih)
    next
      case False
      then show ?thesis by (auto simp: step ih)
    qed
  qed
qed

lemma fold_deliver_mono:
  assumes "i < length pos" and "length pos = length T" and "pos ! i \<le> length cs"
  shows "pos ! i \<le> snd (fold (deliver T s) sched (cs, pos)) ! i"
  using assms by (simp add: fold_deliver_pos)

lemma fold_deliver_status:
  assumes "j < length cs" and "length pos = length T" and "\<forall>i < length pos. pos ! i \<le> length cs"
  shows "chunk_status (fst (fold (deliver T s) sched (cs, pos)) ! j) = COMPLETED
         \<longleftrightarrow> chunk_status (cs ! j) = COMPLETED
             \<or> (\<exists>i < length T. pos ! i \<le> j \<and> j < snd (fold (deliver T s) sched (cs, pos)) ! i)"
  using assms
proof (induction sched arbitrary: cs pos)
  case Nil
  then show ?case by auto
next
  case (Cons k sched)
  show ?case
  proof (cases "k < s \<and> k < length T \<and> pos ! k < length cs")
    case True
    define cs1 where
      "cs1 = cs[pos ! k := (cs ! (pos ! k))\<lparr>chunk_status := COMPLETED, stored_node := Some (T ! k)\<rparr>]"
    define pos1 where "pos1 = pos[k := Suc (pos ! k)]"
    define fin where "fin = snd (fold (deliver T s) sched (cs1, pos1))"
    have step: "fold (deliver T s) (k # sched) (cs, pos) = fold (deliver T s) sched (cs1, pos1)"
      using True by (simp add: deliver_eq cs1_def pos1_def)
    have len: "length cs1 = length cs" "length pos1 = length T"
      using Cons.prems by (simp_all add: cs1_def pos1_def)
    have p1: "\<And>i. i < length T \<Longrightarrow> pos1 ! i = (if i = k then Suc (pos ! i) else pos ! i)"
      using Cons.prems(2) by (simp add: pos1_def nth_list_update)
    have bound1: "\<forall>i < length pos1. pos1 ! i \<le> length cs1"
      using Cons.prems True by (auto simp: len p1)
    have st1: "chunk_status (cs1 ! j) = COMPLETED
                 \<longleftrightarrow> j = pos ! k \<or> chunk_status (cs ! j) = COMPLETED"
      using Cons.prems(1) by (cases "j = pos ! k") (simp_all add: cs1_def)
    have ih: "chunk_status (fst (fold (deliver T s) sched (cs1, pos1)) ! j) = COMPLETED
         \<longleftrightarrow> chunk_status (cs1 ! j) = COMPLETED
             \<or> (\<exists>i < length T. pos1 ! i \<le> j \<and> j < fin ! i)"
      unfolding fin_def using Cons.prems(1) len bound1 by (intro Cons.IH) simp_all
    have "pos1 ! k \<le> fin ! k"
      unfolding fin_def using True len bound1 by (intro fold_deliver_mono) simp_all
    then have k_passed: "pos ! k < fin ! k"
      using True by (simp add: p1)
    have "(j = pos ! k \<or> (\<exists>i < length T. pos1 ! i \<le> j \<and> j < fin ! i))
            \<longleftrightarrow> (\<exists>i < length T. pos ! i \<le> j \<and> j < fin ! i)"
    proof
      assume "j = pos ! k \<or> (\<exists>i < length T. pos1 ! i \<le> j \<and> j < fin ! i)"
      then show "\<exists>i < length T. pos ! i \<le> j \<and> j < fin ! i"
      proof
        assume "j = pos ! k"
        with k_passed True show ?thesis by auto
      next
        assume "\<exists>i < length T. pos1 ! i \<le> j \<and> j < fin ! i"
        then obtain i where i: "i < length T" "pos1 ! i \<le> j" "j < fin ! i" by blast
        then have "pos ! i \<le> j" by (simp add: p1 split: if_splits)
        with i show ?thesis by blast
      qed
    next
      assume "\<exists>i < length T. pos ! i \<le> j \<and> j < fin ! i"
      then obtain i where i: "i < length T" "pos ! i \<le> j" "j < fin ! i" by blast
      show "j = pos ! k \<or> (\<exists>i < length T. pos1 ! i \<le> j \<and> j < fin ! i)"
      proof (cases "j = pos ! k")
        case True
        then show ?thesis by simp
      next
        case False
        with i have "pos1 ! i \<le> j" by (auto simp: p1)
        with i show ?thesis by blast
      qed
    qed
    then show ?thesis
      unfolding step ih st1 fin_def by blast
  next
    case False
    have step: "fold (deliver T s) (k # sched) (cs, pos) = fold (deliver T s) sched (cs, pos)"
      using False by (auto simp: deliver_eq)
    show ?thesis
      unfolding step using Cons.prems by (rule Cons.IH)
  qed
qed

lemma simulate_length:
  "length (fst (simulate T s sched cs)) = length cs \<and> length (snd (simulate T s sched cs)) = length T"
  using fold_deliver_length [of T s sched cs "replicate (length T) 0"]
  by (simp add: simulate_def)

lemma simulate_progress:
  assumes "i < length T"
  shows "snd (simulate T (length T) sched cs) ! i = min (count_list sched i) (length cs)"
  using assms fold_deliver_pos [of i "replicate (length T) 0" T cs "length T" sched]
  by (simp add: simulate_def)

lemma simulate_status:
  assumes "j < length cs"
  shows "chunk_status (fst (simulate T s sched cs) ! j) = COMPLETED
         \<longleftrightarrow> chunk_status (cs ! j) = COMPLETED
             \<or> (\<exists>i < length T. j < snd (simulate T s sched cs) ! i)"
  using assms fold_deliver_status [of j cs "replicate (length T) 0" T s sched]
  by (simp add: simulate_def cong: conj_cong)

lemma is_complete_nth:
  "is_complete t \<longleftrightarrow> (\<forall>j < length (chunks t). chunk_status (chunks t ! j) = COMPLETED)"
  by (simp add: is_complete_def list_all_length)

lemma covered_iff_one_done:
  assumes "\<forall>i < m. p i \<le> (n::nat)"
  shows "(\<forall>j < n. \<exists>i < m. j < p i) \<longleftrightarrow> n = 0 \<or> (\<exists>i < m. p i = n)"
proof
  assume cov: "\<forall>j < n. \<exists>i < m. j < p i"
  show "n = 0 \<or> (\<exists>i < m. p i = n)"
  proof (cases n)
    case 0
    then show ?thesis by simp
  next
    case (Suc k)
    with cov obtain i where "i < m" "k < p i" by auto
    with assms Suc have "p i = n" by (metis Suc_leI le_antisym)
    with \<open>i < m\<close> show ?thesis by blast
  qed
next
  assume "n = 0 \<or> (\<exists>i < m. p i = n)"
  then show "\<forall>j < n. \<exists>i < m. j < p i" by auto
qed

lemma gen_chunks_pending: "\<forall>c \<in> set (gen_chunks d fid fs). chunk_status c = PENDING"
  by (auto simp: gen_chunks_def Let_def)

lemma count_list_replicate:
  "count_list (replicate n x) y = (if x = y then n else 0)"
  by (induction n) auto

lemma execute_progress:
  "progress (execute now sched None t T r) = snd (simulate T (length T) sched (chunks t))"
  by (simp add: execute_def Let_def)

lemma execute_chunks:
  "chunks (transfer (execute now sched None t T r)) = fst (simulate T (length T) sched (chunks t))"
  by (simp add: execute_def Let_def mark_completed_def)

lemma status_after_execute:
  "status (transfer (execute now sched None t T r))
     = (if (\<forall>j < length (chunks t).
              chunk_status (fst (simulate T (length T) sched (chunks t)) ! j) = COMPLETED)
        then COMPLETED else FAILED)"
  by (simp add: execute_def Let_def mark_completed_def is_complete_nth simulate_length)

lemma execute_progress_nth:
  assumes "i < length T"
  shows "progress (execute now sched None t T r) ! i = min (count_list sched i) (length (chunks t))"
  using assms by (simp add: execute_progress simulate_progress)

lemma execute_chunk_done:
  assumes "\<forall>c \<in> set (chunks t). chunk_status c = PENDING" and "j < length (chunks t)"
  shows "chunk_status (chunks (transfer (execute now sched None t T r)) ! j) = COMPLETED
         \<longleftrightarrow> (\<exists>i < length T. j < progress (execute now sched None t T r) ! i)"
proof -
  have "chunk_status (chunks t ! j) = PENDING"
    using assms by simp
  then show ?thesis
    using simulate_status [OF assms(2), of T "length T" sched]
    by (simp add: execute_chunks execute_progress)
qed

lemma execute_completed_iff:
  assumes "\<forall>c \<in> set (chunks t). chunk_status c = PENDING"
  shows "status (transfer (execute now sched None t T r)) = COMPLETED
         \<longleftrightarrow> chunks t = []
             \<or> (\<exists>i < length T. progress (execute now sched None t T r) ! i = length (chunks t))"
proof -
  let ?E = "execute now sched None t T r"
  have "status (transfer ?E) = COMPLETED
          \<longleftrightarrow> (\<forall>j < length (chunks t). chunk_status (chunks (transfer ?E) ! j) = COMPLETED)"
    by (simp add: status_after_execute execute_chunks)
  also have "\<dots> \<longleftrightarrow> (\<forall>j < length (chunks t). \<exists>i < length T. j < progress ?E ! i)"
    using execute_chunk_done [OF assms] by simp
  also have "\<dots> \<longleftrightarrow> length (chunks t) = 0
                    \<or> (\<exists>i < length T. progress ?E ! i = length (chunks t))"
    by (rule covered_iff_one_done) (simp add: execute_progress_nth)
  finally show ?thesis by simp
qed

text \<open>
  Claim C1, as the claim states it, fails.  For the 500 MiB transfer to two targets
  and the schedule in which only the second target's thread gets through, every chunk
  carries \<open>COMPLETED\<close> in its one shared field and the transfer ends \<open>COMPLETED\<close>,
  although the first target has been delivered 45 of the 50 chunks.
\<close>

theorem execute_counterexample:
  "status (transfer (execute 40 slow_first_schedule None big_transfer [''n1'', ''n2''] Map.empty))
     = COMPLETED
   \<and> length (chunks big_transfer) = 50
   \<and> progress (execute 40 slow_first_schedule None big_transfer [''n1'', ''n2''] Map.empty) ! 0 = 45"
proof -
  have pend: "\<forall>c \<in> set (chunks big_transfer). chunk_status c = PENDING"
    by (simp add: big_transfer_def gen_chunks_pending)
  have "int (length (chunks big_transfer)) = 50"
    by (simp add: big_transfer_def length_gen_chunks calc_chunk_size_def)
  then have len: "length (chunks big_transfer) = 50"
    by simp
  have p0: "progress (execute 40 slow_first_schedule None big_transfer [''n1'', ''n2''] Map.empty) ! 0 = 45"
    by (simp add: execute_progress_nth len slow_first_schedule_def count_list_replicate)
  have p1: "progress (execute 40 slow_first_schedule None big_transfer [''n1'', ''n2''] Map.empty) ! 1 = 50"
    by (simp add: execute_progress_nth len slow_first_schedule_def count_list_replicate)
  have "status (transfer (execute 40 slow_first_schedule None big_transfer [''n1'', ''n2''] Map.empty))
          = COMPLETED"
    unfolding execute_completed_iff [OF pend] len using p1 by auto
  with len p0 show ?thesis by simp
qed

text \<open>
  Claim C1, amended.  For a transfer whose chunks are all pending when the executor
  takes it, as planning hands them over, and an executor that starts all its threads:
  the final status is \<open>COMPLETED\<close> or \<open>FAILED\<close>; it is \<open>COMPLETED\<close> exactly when, at
  the time the joins have returned, the file has no chunks or at least one target has
  been delivered every chunk, and \<open>FAILED\<close> exactly when there are chunks and no
  target has been delivered all of them.  In particular it is \<open>COMPLETED\<close> when
  there is a target and every target has been delivered every chunk.  A chunk is
  \<open>COMPLETED\<close> in its single shared field exactly when some target has been
  delivered it, and a target has been delivered as many chunks as its thread got
  through, at most all of them.
\<close>

theorem execute_status:
  assumes "\<forall>c \<in> set (chunks t). chunk_status c = PENDING"
  shows "(status (transfer (execute now schedule None t target_nodes r)) = COMPLETED
          \<or> status (transfer (execute now schedule None t target_nodes r)) = FAILED)
       \<and> (status (transfer (execute now schedule None t target_nodes r)) = COMPLETED
          \<longleftrightarrow> chunks t = []
              \<or> (\<exists>i < length target_nodes.
                    progress (execute now schedule None t target_nodes r) ! i = length (chunks t)))
       \<and> (status (transfer (execute now schedule None t target_nodes r)) = FAILED
          \<longleftrightarrow> chunks t \<noteq> []
              \<and> (\<forall>i < length target_nodes.
                    progress (execute now schedule None t target_nodes r) ! i < length (chunks t)))
       \<and> (target_nodes \<noteq> []
            \<and> (\<forall>i < length target_nodes.
                  progress (execute now schedule None t target_nodes r) ! i = length (chunks t))
          \<longrightarrow> status (transfer (execute now schedule None t target_nodes r)) = COMPLETED)
       \<and> length (chunks (transfer (execute now schedule None t target_nodes r))) = length (chunks t)
       \<and> (\<forall>j < length (chunks t).
             chunk_status (chunks (transfer (execute now schedule None t target_nodes r)) ! j) = COMPLETED
             \<longleftrightarrow> (\<exists>i < length target_nodes.
                     j < progress (execute now schedule None t target_nodes r) ! i))
       \<and> length (progress (execute now schedule None t target_nodes r)) = length target_nodes
       \<and> (\<forall>i < length target_nodes.
             progress (execute now schedule None t target_nodes r) ! i
               = min (count_list schedule i) (length (chunks t)))"
proof -
  let ?E = "execute now schedule None t target_nodes r"
  have two: "status (transfer ?E) = COMPLETED \<or> status (transfer ?E) = FAILED"
    by (simp add: status_after_execute)
  have comp: "status (transfer ?E) = COMPLETED
                \<longleftrightarrow> chunks t = [] \<or> (\<exists>i < length target_nodes. progress ?E ! i = length (chunks t))"
    by (rule execute_completed_iff [OF assms])
  have bound: "\<forall>i < length target_nodes. progress ?E ! i \<le> length (chunks t)"
    by (simp add: execute_progress_nth)
  have "status (transfer ?E) = FAILED \<longleftrightarrow> status (transfer ?E) \<noteq> COMPLETED"
    using two by auto
  also have "\<dots> \<longleftrightarrow> chunks t \<noteq> []
                 \<and> (\<forall>i < length target_nodes. progress ?E ! i \<noteq> length (chunks t))"
    by (simp add: comp)
  also have "\<dots> \<longleftrightarrow> chunks t \<noteq> []
                 \<and> (\<forall>i < length target_nodes. progress ?E ! i < length (chunks t))"
    using bound by (metis le_neq_implies_less less_irrefl)
  finally have fail: "status (transfer ?E) = FAILED
      \<longleftrightarrow> chunks t \<noteq> [] \<and> (\<forall>i < length target_nodes. progress ?E ! i < length (chunks t))" .
  have all: "target_nodes \<noteq> []
              \<and> (\<forall>i < length target_nodes. progress ?E ! i = length (chunks t))
            \<longrightarrow> status (transfer ?E) = COMPLETED"
    unfolding comp by (cases target_nodes) auto
  have len: "length (chunks (transfer ?E)) = length (chunks t)"
    by (simp add: execute_chunks simulate_length)
  have each: "\<forall>j < length (chunks t).
      chunk_status (chunks (transfer ?E) ! j) = COMPLETED
        \<longleftrightarrow> (\<exists>i < length target_nodes. j < progress ?E ! i)"
    using execute_chunk_done [OF assms] by blast
  have plen: "length (progress ?E) = length target_nodes"
    by (simp add: execute_progress simulate_length)
  have pnth: "\<forall>i < length target_nodes.
      progress ?E ! i = min (count_list schedule i) (length (chunks t))"
    by (simp add: execute_progress_nth)
  from two comp fail all len each plen pnth show ?thesis
    by blast
qed

theorem execute_status_witness:
  "list_all (\<lambda>c. chunk_status c = PENDING) (chunks big_transfer)
   \<and> status (transfer (execute 40 (replicate 40 0 @ replicate 40 1) None big_transfer
                 [''n1'', ''n2''] Map.empty)) = FAILED"
proof -
  have pend: "\<forall>c \<in> set (chunks big_transfer). chunk_status c = PENDING"
    by (simp add: big_transfer_def gen_chunks_pending)
  have "int (length (chunks big_transfer)) = 50"
    by (simp add: big_transfer_def length_gen_chunks calc_chunk_size_def)
  then have len: "length (chunks big_transfer) = 50"
    by simp
  let ?E = "execute 40 (replicate 40 0 @ replicate 40 1) None big_transfer [''n1'', ''n2''] Map.empty"
  note E = execute_status [OF pend, of 40 "replicate 40 0 @ replicate 40 1" "[''n1'', ''n2'']" Map.empty]
  from E have fail: "status (transfer ?E) = FAILED
      \<longleftrightarrow> chunks big_transfer \<noteq> []
          \<and> (\<forall>i < length [''n1'', ''n2'']. progress ?E ! i < length (chunks big_transfer))"
    by blast
  from E have pn: "\<forall>i < length [''n1'', ''n2''].
      progress ?E ! i = min (count_list (replicate 40 0 @ replicate 40 1) i) (length (chunks big_transfer))"
    by blast
  have "\<forall>i < length [''n1'', ''n2'']. progress ?E ! i < length (chunks big_transfer)"
  proof (intro allI impI)
    fix i :: nat assume "i < length [''n1'', ''n2'']"
    then have "i = 0 \<or> i = 1" by auto
    moreover have "progress ?E ! 0 = 40" "progress ?E ! 1 = 40"
      using pn by (simp_all add: len count_list_replicate)
    ultimately show "progress ?E ! i < length (chunks big_transfer)"
      by (auto simp: len)
  qed
  moreover have "chunks big_transfer \<noteq> []"
    using len by auto
  ultimately have "status (transfer ?E) = FAILED"
    using fail by blast
  with pend show ?thesis by (simp add: list_all_iff)
qed

section \<open>Heartbeats: proofs\<close>

lemma map_fst_map_entry: "map fst (AList.map_entry k f xs) = map fst xs"
  by (induction xs) auto

lemma map_fst_update_present:
  assumes "k \<in> fst ` set xs"
  shows "map fst (AList.update k v xs) = map fst xs"
  using assms by (induction xs) auto

lemma map_of_eq_None_keys: "map_of xs k = None \<longleftrightarrow> k \<notin> fst ` set xs"
  by (simp add: map_of_eq_None_iff)

text \<open>
  Claim C7.  A heartbeat naming a node id that is not a key of the registry is
  answered with \<open>{status: "ERROR", message: "Node not registered"}\<close> and leaves the
  whole controller state as it was.  A heartbeat naming a registered node id is
  answered \<open>{status: "ACK"}\<close>; it sets \<open>last_seen\<close> of that node's record and the
  node's last-heartbeat entry to the clock reading, changes no other field of the
  record, no other record and no other last-heartbeat entry, and keeps the keys of
  the registry and their order.
\<close>

theorem heartbeat_contract:
  "(py_str P (dict_get msg ''node_id'' (JStr [])) \<notin> fst ` set (registered c) \<longrightarrow>
      handle_heartbeat P now msg c
        = (JObj [(''status'', JStr ''ERROR''), (''message'', JStr ''Node not registered'')], c))
   \<and> (py_str P (dict_get msg ''node_id'' (JStr [])) \<in> fst ` set (registered c) \<longrightarrow>
        fst (handle_heartbeat P now msg c) = JObj [(''status'', JStr ''ACK'')]
      \<and> (\<exists>info.
            map_of (registered c) (py_str P (dict_get msg ''node_id'' (JStr []))) = Some info
          \<and> map_of (registered (snd (handle_heartbeat P now msg c)))
                (py_str P (dict_get msg ''node_id'' (JStr [])))
              = Some (info\<lparr>last_seen := now\<rparr>))
      \<and> map_of (last_hb (snd (handle_heartbeat P now msg c)))
            (py_str P (dict_get msg ''node_id'' (JStr []))) = Some now
      \<and> (\<forall>k. k \<noteq> py_str P (dict_get msg ''node_id'' (JStr [])) \<longrightarrow>
            map_of (registered (snd (handle_heartbeat P now msg c))) k = map_of (registered c) k
          \<and> map_of (last_hb (snd (handle_heartbeat P now msg c))) k = map_of (last_hb c) k)
      \<and> map fst (registered (snd (handle_heartbeat P now msg c))) = map fst (registered c)
      \<and> port (snd (handle_heartbeat P now msg c)) = port c
      \<and> total_connections (snd (handle_heartbeat P now msg c)) = total_connections c
      \<and> total_data_transferred (snd (handle_heartbeat P now msg c)) = total_data_transferred c)"
proof (intro conjI impI)
  let ?nid = "py_str P (dict_get msg ''node_id'' (JStr []))"
  assume "?nid \<notin> fst ` set (registered c)"
  then show "handle_heartbeat P now msg c
        = (JObj [(''status'', JStr ''ERROR''), (''message'', JStr ''Node not registered'')], c)"
    by (simp add: handle_heartbeat_def Let_def error_response_def)
next
  let ?nid = "py_str P (dict_get msg ''node_id'' (JStr []))"
  assume reg: "?nid \<in> fst ` set (registered c)"
  then have hb: "handle_heartbeat P now msg c
      = (status_response ''ACK'',
         c\<lparr>last_hb := AList.update ?nid now (last_hb c),
           registered := AList.map_entry ?nid (\<lambda>i. i\<lparr>last_seen := now\<rparr>) (registered c)\<rparr>)"
    by (simp add: handle_heartbeat_def Let_def)
  show "fst (handle_heartbeat P now msg c) = JObj [(''status'', JStr ''ACK'')]"
    by (simp add: hb status_response_def)
  from reg obtain info where info: "map_of (registered c) ?nid = Some info"
    by (metis map_of_eq_None_keys not_Some_eq)
  then show "\<exists>info. map_of (registered c) ?nid = Some info
          \<and> map_of (registered (snd (handle_heartbeat P now msg c))) ?nid
              = Some (info\<lparr>last_seen := now\<rparr>)"
    by (simp add: hb map_of_map_entry)
  show "map_of (last_hb (snd (handle_heartbeat P now msg c))) ?nid = Some now"
    by (simp add: hb update_conv')
  show "\<forall>k. k \<noteq> ?nid \<longrightarrow>
            map_of (registered (snd (handle_heartbeat P now msg c))) k = map_of (registered c) k
          \<and> map_of (last_hb (snd (handle_heartbeat P now msg c))) k = map_of (last_hb c) k"
    by (simp add: hb map_of_map_entry update_conv')
  show "map fst (registered (snd (handle_heartbeat P now msg c))) = map fst (registered c)"
    by (simp add: hb map_fst_map_entry)
  show "port (snd (handle_heartbeat P now msg c)) = port c"
    by (simp add: hb)
  show "total_connections (snd (handle_heartbeat P now msg c)) = total_connections c"
    by (simp add: hb)
  show "total_data_transferred (snd (handle_heartbeat P now msg c)) = total_data_transferred c"
    by (simp add: hb)
qed

theorem heartbeat_contract_witness:
  "handle_heartbeat example_lib 7 [(''action'', JStr ''HEARTBEAT''), (''node_id'', JStr ''n9'')]
       one_node_controller
     = (JObj [(''status'', JStr ''ERROR''), (''message'', JStr ''Node not registered'')],
        one_node_controller)
   \<and> fst (handle_heartbeat example_lib 7 [(''action'', JStr ''HEARTBEAT''), (''node_id'', JStr ''n1'')]
            one_node_controller)
     = JObj [(''status'', JStr ''ACK'')]
   \<and> map_of (last_hb (snd (handle_heartbeat example_lib 7
            [(''action'', JStr ''HEARTBEAT''), (''node_id'', JStr ''n1'')] one_node_controller))) ''n1''
     = Some 7"
proof -
  have a: "py_str example_lib (dict_get [(''action'', JStr ''HEARTBEAT''), (''node_id'', JStr ''n9'')]
             ''node_id'' (JStr [])) = ''n9''"
    by (simp add: py_str_def dict_get_def)
  have b: "py_str example_lib (dict_get [(''action'', JStr ''HEARTBEAT''), (''node_id'', JStr ''n1'')]
             ''node_id'' (JStr [])) = ''n1''"
    by (simp add: py_str_def dict_get_def)
  have k: "fst ` set (registered one_node_controller) = {''n1''}"
    by (simp add: one_node_controller_def)
  show ?thesis
    using heartbeat_contract [of example_lib "[(''action'', JStr ''HEARTBEAT''), (''node_id'', JStr ''n9'')]"
        one_node_controller 7]
      heartbeat_contract [of example_lib "[(''action'', JStr ''HEARTBEAT''), (''node_id'', JStr ''n1'')]"
        one_node_controller 7]
    unfolding a b k by simp
qed

section \<open>Registration: proofs\<close>

lemma py_int_Inr_iff: "(\<exists>i. py_int P v = Inr i) \<longleftrightarrow> int_like P v"
  by (cases v) (auto simp: py_int_def int_like_def split: option.splits)

lemma bind_exn_InrE:
  assumes "bind_exn m f = Inr y"
  obtains x where "m = Inr x" and "f x = Inr y"
  using assms by (cases m) (simp_all add: bind_exn_def)

lemma bind_exn_Inr [simp]: "bind_exn (Inr x) f = f x"
  by (simp add: bind_exn_def)

lemma int_like_default:
  "int_like P (dict_get d k (JInt n)) \<longleftrightarrow> absent_or_int P d k"
  by (simp add: dict_get_def absent_or_int_def int_like_def split: option.splits)

lemma cap_field_InrE:
  assumes "bind_exn (cap_get cap k (JInt n)) (py_int P) = Inr i"
  obtains d where "cap = JObj d" and "absent_or_int P d k"
proof -
  from assms obtain v where v: "cap_get cap k (JInt n) = Inr v" and i: "py_int P v = Inr i"
    by (rule bind_exn_InrE)
  from v obtain d where d: "cap = JObj d" and "v = dict_get d k (JInt n)"
    by (cases cap) (simp_all add: cap_get_def)
  with i have "int_like P (dict_get d k (JInt n))"
    using py_int_Inr_iff by blast
  then have "absent_or_int P d k"
    by (simp only: int_like_default)
  with d show ?thesis by (rule that)
qed

lemma cap_field_Inr:
  assumes "absent_or_int P d k"
  shows "\<exists>i. bind_exn (cap_get (JObj d) k (JInt n)) (py_int P) = Inr i"
proof -
  from assms have "int_like P (dict_get d k (JInt n))"
    by (simp only: int_like_default)
  then obtain i where "py_int P (dict_get d k (JInt n)) = Inr i"
    using py_int_Inr_iff by blast
  then show ?thesis
    by (simp add: cap_get_def)
qed

lemma top_field_Inr:
  assumes "absent_or_int P msg k"
  shows "\<exists>i. py_int P (dict_get msg k (JInt n)) = Inr i"
  using assms by (simp only: py_int_Inr_iff int_like_default)

lemma capacity_value_ok:
  "(\<exists>d. dict_get msg ''capacity'' (JObj []) = JObj d
        \<and> absent_or_int P d ''cpu'' \<and> absent_or_int P d ''memory''
        \<and> absent_or_int P d ''storage'' \<and> absent_or_int P d ''bandwidth'')
   \<longleftrightarrow> (case map_of msg ''capacity'' of
          None \<Rightarrow> True
        | Some (JObj d) \<Rightarrow>
            absent_or_int P d ''cpu'' \<and> absent_or_int P d ''memory''
            \<and> absent_or_int P d ''storage'' \<and> absent_or_int P d ''bandwidth''
        | Some _ \<Rightarrow> False)"
proof (cases "map_of msg ''capacity''")
  case None
  then show ?thesis
    by (simp add: dict_get_def absent_or_int_def)
next
  case (Some cap)
  then show ?thesis
    by (cases cap) (simp_all add: dict_get_def)
qed

lemma parse_register_InrE:
  assumes "parse_register P now p msg = Inr info"
  obtains nv tp up d c m s b where
    "map_of msg ''node_id'' = Some nv"
    "py_int P (dict_get msg ''tcp_port'' (JInt p)) = Inr tp"
    "py_int P (dict_get msg ''port'' (JInt 0)) = Inr up"
    "dict_get msg ''capacity'' (JObj []) = JObj d"
    "bind_exn (cap_get (JObj d) ''cpu'' (JInt 4)) (py_int P) = Inr c"
    "bind_exn (cap_get (JObj d) ''memory'' (JInt 8)) (py_int P) = Inr m"
    "bind_exn (cap_get (JObj d) ''storage'' (JInt 107374182400)) (py_int P) = Inr s"
    "bind_exn (cap_get (JObj d) ''bandwidth'' (JInt 1000000000)) (py_int P) = Inr b"
    "info = new_NodeInfo now (py_str P nv) (py_str P (dict_get msg ''host'' (JStr ''127.0.0.1''))) tp up
              \<lparr>cpu = c, memory_gb = m, storage_bytes = s, bandwidth_bps = b\<rparr>"
proof -
  from assms obtain nv where nv: "map_of msg ''node_id'' = Some nv"
    by (cases "map_of msg ''node_id''") (simp_all add: parse_register_def)
  let ?cap = "dict_get msg ''capacity'' (JObj [])"
  from assms nv obtain tp where tp: "py_int P (dict_get msg ''tcp_port'' (JInt p)) = Inr tp"
    and r1: "bind_exn (py_int P (dict_get msg ''port'' (JInt 0))) (\<lambda>up.
              bind_exn (bind_exn (cap_get ?cap ''cpu'' (JInt 4)) (py_int P)) (\<lambda>c.
              bind_exn (bind_exn (cap_get ?cap ''memory'' (JInt 8)) (py_int P)) (\<lambda>m.
              bind_exn (bind_exn (cap_get ?cap ''storage'' (JInt (100 * 1024 * 1024 * 1024))) (py_int P)) (\<lambda>s.
              bind_exn (bind_exn (cap_get ?cap ''bandwidth'' (JInt 1000000000)) (py_int P)) (\<lambda>b.
              Inr (new_NodeInfo now (py_str P nv) (py_str P (dict_get msg ''host'' (JStr ''127.0.0.1''))) tp up
                     \<lparr>cpu = c, memory_gb = m, storage_bytes = s, bandwidth_bps = b\<rparr>)))))) = Inr info"
    by (auto simp: parse_register_def Let_def elim: bind_exn_InrE)
  from r1 obtain up where up: "py_int P (dict_get msg ''port'' (JInt 0)) = Inr up"
    and r2: "bind_exn (bind_exn (cap_get ?cap ''cpu'' (JInt 4)) (py_int P)) (\<lambda>c.
              bind_exn (bind_exn (cap_get ?cap ''memory'' (JInt 8)) (py_int P)) (\<lambda>m.
              bind_exn (bind_exn (cap_get ?cap ''storage'' (JInt (100 * 1024 * 1024 * 1024))) (py_int P)) (\<lambda>s.
              bind_exn (bind_exn (cap_get ?cap ''bandwidth'' (JInt 1000000000)) (py_int P)) (\<lambda>b.
              Inr (new_NodeInfo now (py_str P nv) (py_str P (dict_get msg ''host'' (JStr ''127.0.0.1''))) tp up
                     \<lparr>cpu = c, memory_gb = m, storage_bytes = s, bandwidth_bps = b\<rparr>))))) = Inr info"
    by (rule bind_exn_InrE)
  from r2 obtain c where c: "bind_exn (cap_get ?cap ''cpu'' (JInt 4)) (py_int P) = Inr c"
    and r3: "bind_exn (bind_exn (cap_get ?cap ''memory'' (JInt 8)) (py_int P)) (\<lambda>m.
              bind_exn (bind_exn (cap_get ?cap ''storage'' (JInt (100 * 1024 * 1024 * 1024))) (py_int P)) (\<lambda>s.
              bind_exn (bind_exn (cap_get ?cap ''bandwidth'' (JInt 1000000000)) (py_int P)) (\<lambda>b.
              Inr (new_NodeInfo now (py_str P nv) (py_str P (dict_get msg ''host'' (JStr ''127.0.0.1''))) tp up
                     \<lparr>cpu = c, memory_gb = m, storage_bytes = s, bandwidth_bps = b\<rparr>)))) = Inr info"
    by (rule bind_exn_InrE)
  from r3 obtain m where m: "bind_exn (cap_get ?cap ''memory'' (JInt 8)) (py_int P) = Inr m"
    and r4: "bind_exn (bind_exn (cap_get ?cap ''storage'' (JInt (100 * 1024 * 1024 * 1024))) (py_int P)) (\<lambda>s.
              bind_exn (bind_exn (cap_get ?cap ''bandwidth'' (JInt 1000000000)) (py_int P)) (\<lambda>b.
              Inr (new_NodeInfo now (py_str P nv) (py_str P (dict_get msg ''host'' (JStr ''127.0.0.1''))) tp up
                     \<lparr>cpu = c, memory_gb = m, storage_bytes = s, bandwidth_bps = b\<rparr>))) = Inr info"
    by (rule bind_exn_InrE)
  from r4 obtain s where s: "bind_exn (cap_get ?cap ''storage'' (JInt (100 * 1024 * 1024 * 1024))) (py_int P) = Inr s"
    and r5: "bind_exn (bind_exn (cap_get ?cap ''bandwidth'' (JInt 1000000000)) (py_int P)) (\<lambda>b.
              Inr (new_NodeInfo now (py_str P nv) (py_str P (dict_get msg ''host'' (JStr ''127.0.0.1''))) tp up
                     \<lparr>cpu = c, memory_gb = m, storage_bytes = s, bandwidth_bps = b\<rparr>)) = Inr info"
    by (rule bind_exn_InrE)
  from r5 obtain b where b: "bind_exn (cap_get ?cap ''bandwidth'' (JInt 1000000000)) (py_int P) = Inr b"
    and fin: "info = new_NodeInfo now (py_str P nv) (py_str P (dict_get msg ''host'' (JStr ''127.0.0.1''))) tp up
                \<lparr>cpu = c, memory_gb = m, storage_bytes = s, bandwidth_bps = b\<rparr>"
    by (auto elim: bind_exn_InrE)
  from c obtain d where d: "?cap = JObj d"
    by (auto elim: cap_field_InrE)
  from s have s': "bind_exn (cap_get ?cap ''storage'' (JInt 107374182400)) (py_int P) = Inr s"
    by simp
  show ?thesis
    using nv tp up d c [unfolded d] m [unfolded d] s' [unfolded d] b [unfolded d] fin
    by (rule that)
qed



lemma wf_parse_register:
  assumes "well_formed_register P msg"
  shows "\<exists>info. parse_register P now p msg = Inr info"
proof -
  from assms obtain nv where nv: "map_of msg ''node_id'' = Some nv"
    by (auto simp: well_formed_register_def)
  from assms obtain tp where tp: "py_int P (dict_get msg ''tcp_port'' (JInt p)) = Inr tp"
    using top_field_Inr [of P msg "''tcp_port''" p] by (auto simp: well_formed_register_def)
  from assms obtain up where up: "py_int P (dict_get msg ''port'' (JInt 0)) = Inr up"
    using top_field_Inr [of P msg "''port''" 0] by (auto simp: well_formed_register_def)
  from assms obtain d where d: "dict_get msg ''capacity'' (JObj []) = JObj d"
    and ok: "absent_or_int P d ''cpu''" "absent_or_int P d ''memory''"
            "absent_or_int P d ''storage''" "absent_or_int P d ''bandwidth''"
    using capacity_value_ok [of msg P] by (auto simp: well_formed_register_def)
  obtain c where c: "bind_exn (cap_get (JObj d) ''cpu'' (JInt 4)) (py_int P) = Inr c"
    using cap_field_Inr [OF ok(1)] by blast
  obtain m where m: "bind_exn (cap_get (JObj d) ''memory'' (JInt 8)) (py_int P) = Inr m"
    using cap_field_Inr [OF ok(2)] by blast
  obtain s where s: "bind_exn (cap_get (JObj d) ''storage'' (JInt 107374182400)) (py_int P) = Inr s"
    using cap_field_Inr [OF ok(3)] by blast
  obtain b where b: "bind_exn (cap_get (JObj d) ''bandwidth'' (JInt 1000000000)) (py_int P) = Inr b"
    using cap_field_Inr [OF ok(4)] by blast
  show ?thesis
    by (simp add: parse_register_def nv Let_def tp up d c m s b)
qed


lemma parse_register_active:
  assumes "parse_register P now p msg = Inr info"
  shows "active info" and "last_seen info = now" and "registered_at info = now"
  using assms by (auto elim!: parse_register_InrE simp: new_NodeInfo_def)

lemma parse_register_explicit:
  assumes "parse_register P now p msg = Inr info"
  obtains nv d tp up cp m s b where
    "map_of msg ''node_id'' = Some nv"
    "py_int P (dict_get msg ''tcp_port'' (JInt p)) = Inr tp"
    "py_int P (dict_get msg ''port'' (JInt 0)) = Inr up"
    "dict_get msg ''capacity'' (JObj []) = JObj d"
    "py_int P (dict_get d ''cpu'' (JInt 4)) = Inr cp"
    "py_int P (dict_get d ''memory'' (JInt 8)) = Inr m"
    "py_int P (dict_get d ''storage'' (JInt 107374182400)) = Inr s"
    "py_int P (dict_get d ''bandwidth'' (JInt 1000000000)) = Inr b"
    "info = \<lparr>node_id = py_str P nv,
             host = py_str P (dict_get msg ''host'' (JStr ''127.0.0.1'')),
             tcp_port = tp, udp_port = up,
             capacity = \<lparr>cpu = cp, memory_gb = m, storage_bytes = s, bandwidth_bps = b\<rparr>,
             registered_at = now, last_seen = now, active = True\<rparr>"
proof -
  from assms obtain nv tp up d c m s b where
    nv: "map_of msg ''node_id'' = Some nv"
    and tp: "py_int P (dict_get msg ''tcp_port'' (JInt p)) = Inr tp"
    and up: "py_int P (dict_get msg ''port'' (JInt 0)) = Inr up"
    and d: "dict_get msg ''capacity'' (JObj []) = JObj d"
    and c: "bind_exn (cap_get (JObj d) ''cpu'' (JInt 4)) (py_int P) = Inr c"
    and m: "bind_exn (cap_get (JObj d) ''memory'' (JInt 8)) (py_int P) = Inr m"
    and s: "bind_exn (cap_get (JObj d) ''storage'' (JInt 107374182400)) (py_int P) = Inr s"
    and b: "bind_exn (cap_get (JObj d) ''bandwidth'' (JInt 1000000000)) (py_int P) = Inr b"
    and info: "info = new_NodeInfo now (py_str P nv) (py_str P (dict_get msg ''host'' (JStr ''127.0.0.1''))) tp up
              \<lparr>cpu = c, memory_gb = m, storage_bytes = s, bandwidth_bps = b\<rparr>"
    by (rule parse_register_InrE)
  have c': "py_int P (dict_get d ''cpu'' (JInt 4)) = Inr c"
    using c by (simp add: cap_get_def)
  have m': "py_int P (dict_get d ''memory'' (JInt 8)) = Inr m"
    using m by (simp add: cap_get_def)
  have s': "py_int P (dict_get d ''storage'' (JInt 107374182400)) = Inr s"
    using s by (simp add: cap_get_def)
  have b': "py_int P (dict_get d ''bandwidth'' (JInt 1000000000)) = Inr b"
    using b by (simp add: cap_get_def)
  have info': "info = \<lparr>node_id = py_str P nv,
             host = py_str P (dict_get msg ''host'' (JStr ''127.0.0.1'')),
             tcp_port = tp, udp_port = up,
             capacity = \<lparr>cpu = c, memory_gb = m, storage_bytes = s, bandwidth_bps = b\<rparr>,
             registered_at = now, last_seen = now, active = True\<rparr>"
    using info by (simp add: new_NodeInfo_def)
  from nv tp up d c' m' s' b' info' show ?thesis
    by (rule that)
qed


lemma handle_register_state:
  "snd (handle_register P now msg c)
     = (case parse_register P now (port c) msg of
          Inl e \<Rightarrow> c
        | Inr info \<Rightarrow> c\<lparr>registered := AList.update (node_id info) info (registered c),
                          last_hb := AList.update (node_id info) now (last_hb c)\<rparr>)"
  by (simp add: handle_register_def Let_def split: sum.splits option.splits)

lemma handle_register_stored:
  assumes "parse_register P now (port c) msg = Inr info"
  shows "snd (handle_register P now msg c)
     = c\<lparr>registered := AList.update (node_id info) info (registered c),
         last_hb := AList.update (node_id info) now (last_hb c)\<rparr>"
  using assms by (simp add: handle_register_state)


lemma handle_register_OK_iff:
  "fst (handle_register P now msg c) = status_response ''OK''
     \<longleftrightarrow> (\<exists>info. parse_register P now (port c) msg = Inr info
               \<and> print_exn P (LogRegistered (node_id info) (capacity info)) = None)"
  by (cases "parse_register P now (port c) msg")
     (auto simp: handle_register_def status_response_def error_response_def Let_def
        split: option.splits)

lemma handle_register_port: "port (snd (handle_register P now msg c)) = port c"
  by (cases "parse_register P now (port c) msg") (simp_all add: handle_register_state)

lemma set_update_subset: "set (AList.update k v xs) \<subseteq> insert (k, v) (set xs)"
  by (induction xs) auto

lemma filter_update_key:
  assumes "distinct (map fst xs)"
  shows "filter (\<lambda>kv. fst kv = k) (AList.update k v xs) = [(k, v)]"
  using assms
proof (induction xs)
  case Nil
  then show ?case by simp
next
  case (Cons x xs)
  show ?case
  proof (cases "fst x = k")
    case True
    with Cons.prems have "k \<notin> fst ` set xs" by auto
    then have "filter (\<lambda>kv. fst kv = k) xs = []"
      by (auto simp: filter_empty_conv)
    with True show ?thesis by simp
  next
    case False
    with Cons show ?thesis by simp
  qed
qed

lemma filter_update_other:
  "filter (\<lambda>kv. fst kv \<noteq> k) (AList.update k v xs) = filter (\<lambda>kv. fst kv \<noteq> k) xs"
  by (induction xs) auto

lemma registry_ok_register:
  assumes "registry_ok c"
  shows "registry_ok (snd (handle_register P now msg c))"
proof (cases "parse_register P now (port c) msg")
  case (Inl e)
  with assms show ?thesis by (simp add: handle_register_state)
next
  case (Inr info)
  have "distinct (map fst (AList.update (node_id info) info (registered c)))"
    using assms by (simp add: registry_ok_def distinct_update)
  moreover have "list_all (\<lambda>kv. node_id (snd kv) = fst kv)
                   (AList.update (node_id info) info (registered c))"
    using assms set_update_subset [of "node_id info" info "registered c"]
    by (auto simp: registry_ok_def list_all_iff)
  ultimately show ?thesis
    by (simp add: handle_register_stored [OF Inr] registry_ok_def)
qed

lemma list_nodes_by_key:
  assumes "registry_ok c"
  shows "filter (\<lambda>e. ne_node_id e = k) (list_nodes c)
           = map (\<lambda>kv. entry_of (snd kv)) (filter (\<lambda>kv. fst kv = k) (registered c))"
proof -
  have "\<forall>kv \<in> set (registered c). node_id (snd kv) = fst kv"
    using assms by (simp add: registry_ok_def list_all_iff)
  then have "filter ((\<lambda>e. ne_node_id e = k) \<circ> (\<lambda>kv. entry_of (snd kv))) (registered c)
               = filter (\<lambda>kv. fst kv = k) (registered c)"
    by (intro filter_cong) (auto simp: entry_of_def)
  then show ?thesis
    by (simp add: list_nodes_def filter_map)
qed

lemma list_nodes_not_key:
  assumes "registry_ok c"
  shows "filter (\<lambda>e. ne_node_id e \<noteq> k) (list_nodes c)
           = map (\<lambda>kv. entry_of (snd kv)) (filter (\<lambda>kv. fst kv \<noteq> k) (registered c))"
proof -
  have "\<forall>kv \<in> set (registered c). node_id (snd kv) = fst kv"
    using assms by (simp add: registry_ok_def list_all_iff)
  then have "filter ((\<lambda>e. ne_node_id e \<noteq> k) \<circ> (\<lambda>kv. entry_of (snd kv))) (registered c)
               = filter (\<lambda>kv. fst kv \<noteq> k) (registered c)"
    by (intro filter_cong) (auto simp: entry_of_def)
  then show ?thesis
    by (simp add: list_nodes_def filter_map)
qed

lemma list_nodes_ids:
  assumes "registry_ok c"
  shows "map ne_node_id (list_nodes c) = map fst (registered c)"
proof -
  have "\<forall>kv \<in> set (registered c). node_id (snd kv) = fst kv"
    using assms by (simp add: registry_ok_def list_all_iff)
  then show ?thesis
    by (simp add: list_nodes_def entry_of_def)
qed

lemma list_nodes_after_register:
  assumes ok: "registry_ok c" and p: "parse_register P now (port c) msg = Inr info"
  shows "filter (\<lambda>e. ne_node_id e = node_id info) (list_nodes (snd (handle_register P now msg c)))
           = [entry_of info]"
    and "filter (\<lambda>e. ne_node_id e \<noteq> node_id info) (list_nodes (snd (handle_register P now msg c)))
           = filter (\<lambda>e. ne_node_id e \<noteq> node_id info) (list_nodes c)"
    and "distinct (map ne_node_id (list_nodes (snd (handle_register P now msg c))))"
proof -
  let ?c' = "snd (handle_register P now msg c)"
  have ok': "registry_ok ?c'"
    by (rule registry_ok_register [OF ok])
  have reg: "registered ?c' = AList.update (node_id info) info (registered c)"
    by (simp add: handle_register_stored [OF p])
  have d: "distinct (map fst (registered c))"
    using ok by (simp add: registry_ok_def)
  show "filter (\<lambda>e. ne_node_id e = node_id info) (list_nodes ?c') = [entry_of info]"
    by (simp add: list_nodes_by_key [OF ok'] reg filter_update_key [OF d])
  show "filter (\<lambda>e. ne_node_id e \<noteq> node_id info) (list_nodes ?c')
           = filter (\<lambda>e. ne_node_id e \<noteq> node_id info) (list_nodes c)"
    by (simp only: list_nodes_not_key [OF ok'] list_nodes_not_key [OF ok] reg filter_update_other)
  show "distinct (map ne_node_id (list_nodes ?c'))"
    using ok' by (simp add: list_nodes_ids registry_ok_def)
qed






lemma well_formed_prints_OK:
  assumes "well_formed_register P msg" and "\<forall>line. print_exn P line = None"
  shows "fst (handle_register P now msg c) = status_response ''OK''"
proof -
  from assms(1) obtain info where "parse_register P now (port c) msg = Inr info"
    using wf_parse_register by blast
  with assms(2) show ?thesis
    by (auto simp: handle_register_OK_iff)
qed





text \<open>
  Claim C10.  Where printing does not fail, every registration with a \<open>node_id\<close> key
  and convertible port and capacity fields is answered \<open>{status: "OK"}\<close>.  Every
  registration that is answered \<open>{status: "OK"}\<close> stores, under the text of the
  message's \<open>node_id\<close>, a record built from the message and the clock reading alone:
  that node id, the host, ports and capacity the message gives, both timestamps at the
  clock reading and \<open>active = True\<close>, whatever the registry held for that id before.
  The node's entry in \<open>list_nodes\<close> is active at once, and when the registry holds
  each node once under its id it is the only entry with that id: a node that was
  inactive is active again after registering.
\<close>

theorem register_sets_active:
  "(well_formed_register P msg \<and> (\<forall>line. print_exn P line = None)
      \<longrightarrow> fst (handle_register P now msg c) = JObj [(''status'', JStr ''OK'')])
   \<and> (fst (handle_register P now msg c) = JObj [(''status'', JStr ''OK'')] \<longrightarrow>
       (\<exists>nv d tp up cp m s b.
          map_of msg ''node_id'' = Some nv
        \<and> py_int P (dict_get msg ''tcp_port'' (JInt (port c))) = Inr tp
        \<and> py_int P (dict_get msg ''port'' (JInt 0)) = Inr up
        \<and> dict_get msg ''capacity'' (JObj []) = JObj d
        \<and> py_int P (dict_get d ''cpu'' (JInt 4)) = Inr cp
        \<and> py_int P (dict_get d ''memory'' (JInt 8)) = Inr m
        \<and> py_int P (dict_get d ''storage'' (JInt (100 * 1024 * 1024 * 1024))) = Inr s
        \<and> py_int P (dict_get d ''bandwidth'' (JInt 1000000000)) = Inr b
        \<and> registered (snd (handle_register P now msg c))
            = AList.update (py_str P nv)
                \<lparr>node_id = py_str P nv,
                  host = py_str P (dict_get msg ''host'' (JStr ''127.0.0.1'')),
                  tcp_port = tp, udp_port = up,
                  capacity = \<lparr>cpu = cp, memory_gb = m, storage_bytes = s, bandwidth_bps = b\<rparr>,
                  registered_at = now, last_seen = now, active = True\<rparr>
                (registered c)
        \<and> last_hb (snd (handle_register P now msg c)) = AList.update (py_str P nv) now (last_hb c)
        \<and> map_of (registered (snd (handle_register P now msg c))) (py_str P nv)
            = Some \<lparr>node_id = py_str P nv,
                    host = py_str P (dict_get msg ''host'' (JStr ''127.0.0.1'')),
                    tcp_port = tp, udp_port = up,
                    capacity = \<lparr>cpu = cp, memory_gb = m, storage_bytes = s, bandwidth_bps = b\<rparr>,
                    registered_at = now, last_seen = now, active = True\<rparr>
        \<and> \<lparr>ne_node_id = py_str P nv,
            ne_host = py_str P (dict_get msg ''host'' (JStr ''127.0.0.1'')),
            ne_tcp_port = tp, ne_udp_port = up, ne_active = True,
            ne_capacity = \<lparr>cpu = cp, memory_gb = m, storage_bytes = s, bandwidth_bps = b\<rparr>\<rparr>
            \<in> set (list_nodes (snd (handle_register P now msg c)))
        \<and> (registry_ok c \<longrightarrow>
              filter (\<lambda>e. ne_node_id e = py_str P nv) (list_nodes (snd (handle_register P now msg c)))
                = [\<lparr>ne_node_id = py_str P nv,
                    ne_host = py_str P (dict_get msg ''host'' (JStr ''127.0.0.1'')),
                    ne_tcp_port = tp, ne_udp_port = up, ne_active = True,
                    ne_capacity = \<lparr>cpu = cp, memory_gb = m, storage_bytes = s,
                                    bandwidth_bps = b\<rparr>\<rparr>])))"
proof (intro conjI impI)
  assume "well_formed_register P msg \<and> (\<forall>line. print_exn P line = None)"
  then show "fst (handle_register P now msg c) = JObj [(''status'', JStr ''OK'')]"
    using well_formed_prints_OK [of P msg now c] by (simp add: status_response_def)
next
  let ?c' = "snd (handle_register P now msg c)"
  assume "fst (handle_register P now msg c) = JObj [(''status'', JStr ''OK'')]"
  then obtain info where p: "parse_register P now (port c) msg = Inr info"
    using handle_register_OK_iff [of P now msg c] by (auto simp: status_response_def)
  from p obtain nv d tp up cp m s b where
    nv: "map_of msg ''node_id'' = Some nv"
    and tp: "py_int P (dict_get msg ''tcp_port'' (JInt (port c))) = Inr tp"
    and up: "py_int P (dict_get msg ''port'' (JInt 0)) = Inr up"
    and d: "dict_get msg ''capacity'' (JObj []) = JObj d"
    and cp: "py_int P (dict_get d ''cpu'' (JInt 4)) = Inr cp"
    and m: "py_int P (dict_get d ''memory'' (JInt 8)) = Inr m"
    and s: "py_int P (dict_get d ''storage'' (JInt 107374182400)) = Inr s"
    and b: "py_int P (dict_get d ''bandwidth'' (JInt 1000000000)) = Inr b"
    and info: "info = \<lparr>node_id = py_str P nv,
             host = py_str P (dict_get msg ''host'' (JStr ''127.0.0.1'')),
             tcp_port = tp, udp_port = up,
             capacity = \<lparr>cpu = cp, memory_gb = m, storage_bytes = s, bandwidth_bps = b\<rparr>,
             registered_at = now, last_seen = now, active = True\<rparr>"
    by (rule parse_register_explicit)
  let ?rec = "\<lparr>node_id = py_str P nv,
             host = py_str P (dict_get msg ''host'' (JStr ''127.0.0.1'')),
             tcp_port = tp, udp_port = up,
             capacity = \<lparr>cpu = cp, memory_gb = m, storage_bytes = s, bandwidth_bps = b\<rparr>,
             registered_at = now, last_seen = now, active = True\<rparr>"
  let ?entry = "\<lparr>ne_node_id = py_str P nv,
            ne_host = py_str P (dict_get msg ''host'' (JStr ''127.0.0.1'')),
            ne_tcp_port = tp, ne_udp_port = up, ne_active = True,
            ne_capacity = \<lparr>cpu = cp, memory_gb = m, storage_bytes = s, bandwidth_bps = b\<rparr>\<rparr>"
  have nid: "node_id info = py_str P nv"
    by (simp add: info)
  have ent: "entry_of info = ?entry"
    by (simp add: info entry_of_def)
  have s': "py_int P (dict_get d ''storage'' (JInt (100 * 1024 * 1024 * 1024))) = Inr s"
    using s by simp
  have st: "?c' = c\<lparr>registered := AList.update (node_id info) info (registered c),
                    last_hb := AList.update (node_id info) now (last_hb c)\<rparr>"
    by (rule handle_register_stored [OF p])
  have reg: "registered ?c' = AList.update (py_str P nv) ?rec (registered c)"
    by (simp add: st info)
  have hb: "last_hb ?c' = AList.update (py_str P nv) now (last_hb c)"
    by (simp add: st info)
  have stored: "map_of (registered ?c') (py_str P nv) = Some ?rec"
    by (simp only: reg update_conv') simp
  then have "(py_str P nv, ?rec) \<in> set (registered ?c')"
    by (rule map_of_SomeD)
  then have "entry_of ?rec \<in> set (list_nodes ?c')"
    by (force simp: list_nodes_def)
  then have member: "?entry \<in> set (list_nodes ?c')"
    by (simp add: entry_of_def)
  have one: "registry_ok c \<longrightarrow>
      filter (\<lambda>e. ne_node_id e = py_str P nv) (list_nodes ?c') = [?entry]"
    using list_nodes_after_register(1) [OF _ p] by (simp only: nid ent) blast
  from nv tp up d cp m s' b reg hb stored member one
  show "\<exists>nv d tp up cp m s b.
          map_of msg ''node_id'' = Some nv
        \<and> py_int P (dict_get msg ''tcp_port'' (JInt (port c))) = Inr tp
        \<and> py_int P (dict_get msg ''port'' (JInt 0)) = Inr up
        \<and> dict_get msg ''capacity'' (JObj []) = JObj d
        \<and> py_int P (dict_get d ''cpu'' (JInt 4)) = Inr cp
        \<and> py_int P (dict_get d ''memory'' (JInt 8)) = Inr m
        \<and> py_int P (dict_get d ''storage'' (JInt (100 * 1024 * 1024 * 1024))) = Inr s
        \<and> py_int P (dict_get d ''bandwidth'' (JInt 1000000000)) = Inr b
        \<and> registered ?c'
            = AList.update (py_str P nv)
                \<lparr>node_id = py_str P nv,
                  host = py_str P (dict_get msg ''host'' (JStr ''127.0.0.1'')),
                  tcp_port = tp, udp_port = up,
                  capacity = \<lparr>cpu = cp, memory_gb = m, storage_bytes = s, bandwidth_bps = b\<rparr>,
                  registered_at = now, last_seen = now, active = True\<rparr>
                (registered c)
        \<and> last_hb ?c' = AList.update (py_str P nv) now (last_hb c)
        \<and> map_of (registered ?c') (py_str P nv)
            = Some \<lparr>node_id = py_str P nv,
                    host = py_str P (dict_get msg ''host'' (JStr ''127.0.0.1'')),
                    tcp_port = tp, udp_port = up,
                    capacity = \<lparr>cpu = cp, memory_gb = m, storage_bytes = s, bandwidth_bps = b\<rparr>,
                    registered_at = now, last_seen = now, active = True\<rparr>
        \<and> \<lparr>ne_node_id = py_str P nv,
            ne_host = py_str P (dict_get msg ''host'' (JStr ''127.0.0.1'')),
            ne_tcp_port = tp, ne_udp_port = up, ne_active = True,
            ne_capacity = \<lparr>cpu = cp, memory_gb = m, storage_bytes = s, bandwidth_bps = b\<rparr>\<rparr>
            \<in> set (list_nodes ?c')
        \<and> (registry_ok c \<longrightarrow>
              filter (\<lambda>e. ne_node_id e = py_str P nv) (list_nodes ?c')
                = [\<lparr>ne_node_id = py_str P nv,
                    ne_host = py_str P (dict_get msg ''host'' (JStr ''127.0.0.1'')),
                    ne_tcp_port = tp, ne_udp_port = up, ne_active = True,
                    ne_capacity = \<lparr>cpu = cp, memory_gb = m, storage_bytes = s,
                                    bandwidth_bps = b\<rparr>\<rparr>])"
    by (intro exI conjI)
qed

theorem register_sets_active_witness:
  "well_formed_register example_lib [(''action'', JStr ''REGISTER''), (''node_id'', JStr ''n1'')]
   \<and> (\<forall>line. print_exn example_lib line = None)
   \<and> fst (handle_register example_lib 9 [(''action'', JStr ''REGISTER''), (''node_id'', JStr ''n1'')]
          one_node_controller)
     = JObj [(''status'', JStr ''OK'')]
   \<and> registry_ok one_node_controller
   \<and> map (\<lambda>e. (ne_node_id e, ne_active e)) (list_nodes one_node_controller) = [(''n1'', False)]
   \<and> map (\<lambda>e. (ne_node_id e, ne_active e))
         (list_nodes (snd (handle_register example_lib 9
            [(''action'', JStr ''REGISTER''), (''node_id'', JStr ''n1'')] one_node_controller)))
     = [(''n1'', True)]"
proof -
  let ?msg = "[(''action'', JStr ''REGISTER''), (''node_id'', JStr ''n1'')]"
  let ?c' = "snd (handle_register example_lib 9 ?msg one_node_controller)"
  have wf: "well_formed_register example_lib ?msg"
    by (simp add: well_formed_register_def absent_or_int_def)
  have pr: "\<forall>line. print_exn example_lib line = None"
    by (simp add: example_lib_def)
  have inv: "registry_ok one_node_controller"
    by (simp add: registry_ok_def one_node_controller_def node_n1_def)
  have before: "map (\<lambda>e. (ne_node_id e, ne_active e)) (list_nodes one_node_controller) = [(''n1'', False)]"
    by (simp add: list_nodes_def entry_of_def one_node_controller_def node_n1_def)
  note t = register_sets_active [of example_lib ?msg 9 one_node_controller]
  from t wf pr
  have ok: "fst (handle_register example_lib 9 ?msg one_node_controller) = JObj [(''status'', JStr ''OK'')]"
    by blast
  from t ok inv obtain nv e where
    nv: "map_of ?msg ''node_id'' = Some nv"
    and one: "filter (\<lambda>e. ne_node_id e = py_str example_lib nv) (list_nodes ?c') = [e]"
    and e: "ne_node_id e = py_str example_lib nv" "ne_active e"
    by fastforce
  have id1: "py_str example_lib nv = ''n1''"
    using nv by (auto simp: py_str_def)
  have "map fst (registered ?c') = [''n1'']"
    by (simp add: handle_register_state parse_register_def dict_get_def py_int_def py_str_def
        cap_get_def new_NodeInfo_def Let_def one_node_controller_def)
  moreover have "registry_ok ?c'"
    by (rule registry_ok_register [OF inv])
  ultimately have ids: "map ne_node_id (list_nodes ?c') = [''n1'']"
    by (simp add: list_nodes_ids)
  then have "filter (\<lambda>e. ne_node_id e = ''n1'') (list_nodes ?c') = list_nodes ?c'"
    by (cases "list_nodes ?c'") auto
  with one id1 have "list_nodes ?c' = [e]"
    by simp
  with e id1 have "map (\<lambda>e. (ne_node_id e, ne_active e)) (list_nodes ?c') = [(''n1'', True)]"
    by simp
  with wf pr ok inv before show ?thesis
    by blast
qed

section \<open>Connections: proofs\<close>

lemma handle_client_unknown:
  assumes "data \<noteq> []" and "json_loads P data = Some (JObj m)"
    and "dict_get m ''action'' JNull \<noteq> JStr ''REGISTER''"
    and "dict_get m ''action'' JNull \<noteq> JStr ''HEARTBEAT''"
    and "dict_get m ''action'' JNull \<noteq> JStr ''ACTIVE_NOTIFICATION''"
    and "dict_get m ''action'' JNull \<noteq> JStr ''LIST_NODES''"
    and "dict_get m ''action'' JNull \<noteq> JStr ''STATS''"
  shows "handle_client P now data c
     = (Some (error_response (''Unknown action: '' @ py_str P (dict_get m ''action'' JNull))), c)"
  using assms by (simp add: handle_client_def Let_def)

lemma handle_client_malformed:
  assumes "data = [] \<or> json_loads P data = None
           \<or> (\<exists>v. json_loads P data = Some v \<and> (\<forall>m. v \<noteq> JObj m))"
  shows "handle_client P now data c = (None, c)"
proof (cases "data = []")
  case True
  then show ?thesis by (simp add: handle_client_def)
next
  case False
  show ?thesis
  proof (cases "json_loads P data")
    case None
    with False show ?thesis by (simp add: handle_client_def)
  next
    case (Some v)
    with assms False have "\<forall>m. v \<noteq> JObj m" by auto
    with Some False show ?thesis
      by (cases v) (simp_all add: handle_client_def)
  qed
qed

lemma accept_loop_length: "length (fst (accept_loop P conns c)) = length conns"
  by (induction P conns c rule: accept_loop.induct) (simp_all add: Let_def)

lemma accept_loop_append:
  "accept_loop P (xs @ ys) c
     = (fst (accept_loop P xs c) @ fst (accept_loop P ys (snd (accept_loop P xs c))),
        snd (accept_loop P ys (snd (accept_loop P xs c))))"
  by (induction P xs c rule: accept_loop.induct) (simp_all add: Let_def)

text \<open>
  Claim C8, as the claim states it, fails: a payload that does not decode is sent no
  reply at all.
\<close>

theorem handle_client_counterexample:
  "handle_client example_lib 0 ''not json'' one_node_controller = (None, one_node_controller)"
  by (simp add: handle_client_def example_lib_def)

text \<open>
  Claim C8, amended.  A payload that decodes to a dictionary whose action is none of
  the five known ones is answered exactly
  \<open>{status: "ERROR", message: "Unknown action: <action>"}\<close> and leaves the controller
  as it was.  A payload that is empty, does not decode or decodes to something other
  than a dictionary is sent no reply, and leaves the controller as it was.  The accept
  loop handles every connection that arrives, whatever the earlier ones carried: it
  yields one outcome for each, and the connections after any run of connections are
  handled from the state that run left.
\<close>

theorem handle_client_errors:
  "(data \<noteq> [] \<and> json_loads P data = Some (JObj m)
      \<and> dict_get m ''action'' JNull \<noteq> JStr ''REGISTER''
      \<and> dict_get m ''action'' JNull \<noteq> JStr ''HEARTBEAT''
      \<and> dict_get m ''action'' JNull \<noteq> JStr ''ACTIVE_NOTIFICATION''
      \<and> dict_get m ''action'' JNull \<noteq> JStr ''LIST_NODES''
      \<and> dict_get m ''action'' JNull \<noteq> JStr ''STATS''
    \<longrightarrow> handle_client P now data c
          = (Some (JObj [(''status'', JStr ''ERROR''),
                         (''message'', JStr (''Unknown action: ''
                              @ py_str P (dict_get m ''action'' JNull)))]), c))
   \<and> (data = [] \<or> json_loads P data = None
        \<or> (\<exists>v. json_loads P data = Some v \<and> (\<forall>m. v \<noteq> JObj m))
    \<longrightarrow> handle_client P now data c = (None, c))
   \<and> length (fst (accept_loop P conns c)) = length conns
   \<and> accept_loop P (conns @ later) c
       = (fst (accept_loop P conns c) @ fst (accept_loop P later (snd (accept_loop P conns c))),
          snd (accept_loop P later (snd (accept_loop P conns c))))"
proof (intro conjI impI)
  assume "data \<noteq> [] \<and> json_loads P data = Some (JObj m)
      \<and> dict_get m ''action'' JNull \<noteq> JStr ''REGISTER''
      \<and> dict_get m ''action'' JNull \<noteq> JStr ''HEARTBEAT''
      \<and> dict_get m ''action'' JNull \<noteq> JStr ''ACTIVE_NOTIFICATION''
      \<and> dict_get m ''action'' JNull \<noteq> JStr ''LIST_NODES''
      \<and> dict_get m ''action'' JNull \<noteq> JStr ''STATS''"
  then show "handle_client P now data c
          = (Some (JObj [(''status'', JStr ''ERROR''),
                         (''message'', JStr (''Unknown action: ''
                              @ py_str P (dict_get m ''action'' JNull)))]), c)"
    by (simp add: handle_client_unknown error_response_def)
next
  assume "data = [] \<or> json_loads P data = None
        \<or> (\<exists>v. json_loads P data = Some v \<and> (\<forall>m. v \<noteq> JObj m))"
  then show "handle_client P now data c = (None, c)"
    by (rule handle_client_malformed)
next
  show "length (fst (accept_loop P conns c)) = length conns"
    by (rule accept_loop_length)
next
  show "accept_loop P (conns @ later) c
       = (fst (accept_loop P conns c) @ fst (accept_loop P later (snd (accept_loop P conns c))),
          snd (accept_loop P later (snd (accept_loop P conns c))))"
    by (rule accept_loop_append)
qed

theorem handle_client_errors_witness:
  \<open>handle_client example_lib 0 ''{"action": "PING"}'' one_node_controller
     = (Some (JObj [(''status'', JStr ''ERROR''), (''message'', JStr ''Unknown action: PING'')]),
        one_node_controller)
   \<and> handle_client example_lib 0 ''[1, 2'' one_node_controller = (None, one_node_controller)
   \<and> fst (accept_loop example_lib [(0, ''[1, 2''), (1, ''{"action": "PING"}'')] one_node_controller)
     = [None, Some (JObj [(''status'', JStr ''ERROR''), (''message'', JStr ''Unknown action: PING'')])]\<close>
proof -
  have l1: \<open>json_loads example_lib ''{"action": "PING"}'' = Some (JObj [(''action'', JStr ''PING'')])\<close>
    by (simp add: example_lib_def)
  have l2: \<open>json_loads example_lib ''[1, 2'' = None\<close>
    by (simp add: example_lib_def)
  have a: \<open>dict_get [(''action'', JStr ''PING'')] ''action'' JNull = JStr ''PING''\<close>
    by (simp add: dict_get_def)
  have r1: \<open>\<And>c. handle_client example_lib 0 ''{"action": "PING"}'' c
     = (Some (JObj [(''status'', JStr ''ERROR''), (''message'', JStr ''Unknown action: PING'')]), c)\<close>
    using handle_client_errors [of \<open>''{"action": "PING"}''\<close> example_lib \<open>[(''action'', JStr ''PING'')]\<close> 0]
    by (simp add: l1 a py_str_def)
  have r1': \<open>\<And>c. handle_client example_lib 1 ''{"action": "PING"}'' c
     = (Some (JObj [(''status'', JStr ''ERROR''), (''message'', JStr ''Unknown action: PING'')]), c)\<close>
    using handle_client_errors [of \<open>''{"action": "PING"}''\<close> example_lib \<open>[(''action'', JStr ''PING'')]\<close> 1]
    by (simp add: l1 a py_str_def)
  have r2: \<open>\<And>c. handle_client example_lib 0 ''[1, 2'' c = (None, c)\<close>
    using handle_client_errors [of \<open>''[1, 2''\<close> example_lib _ 0]
    by (simp add: l2)
  show ?thesis
    by (simp add: r1 r1' r2 Let_def)
qed

section \<open>Liveness sweep: proofs\<close>

lemma sweep_node_raised:
  assumes "ex \<noteq> None"
  shows "sweep_node P env now cutoff item (tr, ex, c) = (tr, ex, c)"
  using assms by (cases item) (simp add: sweep_node_def)

lemma sweep_node_cases:
  "sweep_node P env now cutoff (nid, t) (tr, None, c) =
     (if t < cutoff then
        (case map_of (registered c) nid of
           None \<Rightarrow> (tr, None, c)
         | Some info \<Rightarrow>
             (if snd (ping_udp env (host info) (udp_port info)) then
                (tr @ fst (ping_udp env (host info) (udp_port info)),
                 print_exn P (LogRefreshed nid),
                 c\<lparr>last_hb := AList.update nid now (last_hb c),
                   registered := AList.map_entry nid (\<lambda>i. i\<lparr>active := True\<rparr>) (registered c)\<rparr>)
              else if active info then
                (tr @ fst (ping_udp env (host info) (udp_port info)),
                 print_exn P (LogInactive nid),
                 c\<lparr>registered := AList.map_entry nid (\<lambda>i. i\<lparr>active := False\<rparr>) (registered c)\<rparr>)
              else (tr @ fst (ping_udp env (host info) (udp_port info)), None, c)))
      else (tr, None, c))"
  by (simp add: sweep_node_def Let_def split: option.splits)



lemma sweep_node_keeps:
  assumes "\<And>i b. g (i\<lparr>active := b\<rparr>) = g i"
  shows "map_option g (map_of (registered (snd (snd (sweep_node P env now cutoff item (tr, ex, c))))) k)
           = map_option g (map_of (registered c) k)"
    and "map fst (registered (snd (snd (sweep_node P env now cutoff item (tr, ex, c)))))
           = map fst (registered c)"
proof -
  obtain nid t where item: "item = (nid, t)" by (cases item)
  show "map_option g (map_of (registered (snd (snd (sweep_node P env now cutoff item (tr, ex, c))))) k)
           = map_option g (map_of (registered c) k)"
  proof (cases ex)
    case None
    show ?thesis
      unfolding item None
      by (auto simp: sweep_node_cases map_of_map_entry assms split: option.splits)
  next
    case (Some e)
    then show ?thesis by (simp add: sweep_node_raised)
  qed
  show "map fst (registered (snd (snd (sweep_node P env now cutoff item (tr, ex, c)))))
           = map fst (registered c)"
  proof (cases ex)
    case None
    show ?thesis
      unfolding item None
      by (auto simp: sweep_node_cases map_fst_map_entry split: option.splits)
  next
    case (Some e)
    then show ?thesis by (simp add: sweep_node_raised)
  qed
qed

lemma fold_sweep_keeps:
  assumes "\<And>i b. g (i\<lparr>active := b\<rparr>) = g i"
  shows "map_option g (map_of (registered (snd (snd (fold (sweep_node P env now cutoff) items (tr, ex, c))))) k)
           = map_option g (map_of (registered c) k)
       \<and> map fst (registered (snd (snd (fold (sweep_node P env now cutoff) items (tr, ex, c)))))
           = map fst (registered c)"
proof (induction items arbitrary: tr ex c)
  case Nil
  then show ?case by simp
next
  case (Cons item items)
  obtain tr1 ex1 c1 where s1: "sweep_node P env now cutoff item (tr, ex, c) = (tr1, ex1, c1)"
    by (cases "sweep_node P env now cutoff item (tr, ex, c)")
  have "map_option g (map_of (registered (snd (snd (sweep_node P env now cutoff item (tr, ex, c))))) k)
          = map_option g (map_of (registered c) k)"
    by (rule sweep_node_keeps(1) [OF assms])
  moreover have "map fst (registered (snd (snd (sweep_node P env now cutoff item (tr, ex, c)))))
          = map fst (registered c)"
    by (rule sweep_node_keeps(2) [OF assms])
  ultimately have k1: "map_option g (map_of (registered c1) k) = map_option g (map_of (registered c) k)"
    "map fst (registered c1) = map fst (registered c)"
    by (simp_all add: s1)
  show ?case
    using Cons.IH [of tr1 ex1 c1] by (simp add: s1 k1)
qed







lemma heartbeat_monitor_keeps:
  assumes "\<And>i b. g (i\<lparr>active := b\<rparr>) = g i"
  shows "map_option g (map_of (registered (sweep_state (heartbeat_monitor P env now c))) k)
           = map_option g (map_of (registered c) k)"
    and "map fst (registered (sweep_state (heartbeat_monitor P env now c))) = map fst (registered c)"
  using fold_sweep_keeps [of g P env now "now - HEARTBEAT_TIMEOUT_SECONDS" "last_hb c" "[LockAcquire]"
      None c k, OF assms]
  by (simp_all add: heartbeat_monitor_def Let_def)









text \<open>
  Claim C5.  What the sweep does where the claim and the code part: no sweep removes a
  record or changes the \<open>last_seen\<close> of one.  For the registry holding the inactive
  node \<open>n1\<close> with \<open>last_seen\<close> and last heartbeat at 0, a sweep at time 100 whose probe
  is answered sets the node active and its last-heartbeat entry to 100, and leaves
  \<open>last_seen\<close> at 0, where a heartbeat at time 100 sets \<open>last_seen\<close> to 100.  When
  the probe is not answered, an active node becomes inactive and its record stays.
\<close>

theorem sweep_leaves_last_seen:
  "map fst (registered (sweep_state (heartbeat_monitor P env now c))) = map fst (registered c)
   \<and> map_option last_seen (map_of (registered (sweep_state (heartbeat_monitor P env now c))) k)
       = map_option last_seen (map_of (registered c) k)
   \<and> registered (sweep_state (heartbeat_monitor example_lib net_up 100 one_node_controller))
       = [(''n1'', node_n1\<lparr>active := True\<rparr>)]
   \<and> last_seen (node_n1\<lparr>active := True\<rparr>) = 0
   \<and> last_hb (sweep_state (heartbeat_monitor example_lib net_up 100 one_node_controller))
       = [(''n1'', 100)]
   \<and> registered (snd (handle_heartbeat example_lib 100 [(''node_id'', JStr ''n1'')]
                        one_node_controller))
       = [(''n1'', node_n1\<lparr>last_seen := 100\<rparr>)]
   \<and> registered (sweep_state (heartbeat_monitor example_lib net_silent 100
          (one_node_controller\<lparr>registered := [(''n1'', node_n1\<lparr>active := True\<rparr>)]\<rparr>)))
       = [(''n1'', node_n1\<lparr>active := False\<rparr>)]"
proof (intro conjI)
  show "map fst (registered (sweep_state (heartbeat_monitor P env now c))) = map fst (registered c)"
    by (rule heartbeat_monitor_keeps(2) [of "\<lambda>i. ()"]) simp
  show "map_option last_seen (map_of (registered (sweep_state (heartbeat_monitor P env now c))) k)
       = map_option last_seen (map_of (registered c) k)"
    by (rule heartbeat_monitor_keeps(1)) simp
  show "registered (sweep_state (heartbeat_monitor example_lib net_up 100 one_node_controller))
       = [(''n1'', node_n1\<lparr>active := True\<rparr>)]"
    by (simp add: heartbeat_monitor_def sweep_node_cases ping_udp_def net_up_def example_lib_def
        HEARTBEAT_TIMEOUT_SECONDS_def one_node_controller_def node_n1_def Let_def)
  show "last_seen (node_n1\<lparr>active := True\<rparr>) = 0"
    by (simp add: node_n1_def)
  show "last_hb (sweep_state (heartbeat_monitor example_lib net_up 100 one_node_controller))
       = [(''n1'', 100)]"
    by (simp add: heartbeat_monitor_def sweep_node_cases ping_udp_def net_up_def example_lib_def
        HEARTBEAT_TIMEOUT_SECONDS_def one_node_controller_def node_n1_def Let_def)
  show "registered (snd (handle_heartbeat example_lib 100 [(''node_id'', JStr ''n1'')]
                        one_node_controller))
       = [(''n1'', node_n1\<lparr>last_seen := 100\<rparr>)]"
    by (simp add: handle_heartbeat_def dict_get_def py_str_def one_node_controller_def Let_def)
  show "registered (sweep_state (heartbeat_monitor example_lib net_silent 100
          (one_node_controller\<lparr>registered := [(''n1'', node_n1\<lparr>active := True\<rparr>)]\<rparr>)))
       = [(''n1'', node_n1\<lparr>active := False\<rparr>)]"
    by (simp add: heartbeat_monitor_def sweep_node_cases ping_udp_def net_silent_def example_lib_def
        HEARTBEAT_TIMEOUT_SECONDS_def one_node_controller_def node_n1_def Let_def)
qed

end
